theory Spec2Isabelle
  imports Main "HOL-Library.Word"
begin

section \<open>The acknowledgement wrapper of pkg/envoy/xds/ack.go\<close>

text \<open>
  The wrapper sits between callers that change xDS resources and the Envoy nodes that
  acknowledge versions of them. Its Go fields are modelled by one record; every method
  that runs under the wrapper's lock is a function from state to state. Versions are
  \<open>uint64\<close>, so they are 64-bit words and every comparison is the unsigned one.

  Go names are kept. Where a parameter of the source has the name of a field
  (\<open>typeURL\<close>, \<open>version\<close>), the parameter is written \<open>url\<close> or \<open>ver\<close>, since a
  bound variable must not hide the field's selector.
\<close>

type_synonym uint64 = "64 word"

text \<open>The address of a \<open>completion.Completion\<close>: the wrapper only uses it as a map key.\<close>

type_synonym cptr = nat

subsection \<open>ProxyError\<close>

datatype error = ErrNackReceived

record ProxyError =
  Err :: error
  Detail :: string

subsection \<open>pendingCompletion\<close>

text \<open>
  The value type \<open>map[string]struct{}\<close> of \<open>remainingNodesResources\<close>: a nil map or a
  set of resource names. Deleting from a nil map does nothing and its length is 0.
\<close>

datatype nameSet = NilSet | NameSet "string set"

fun lenZero :: "nameSet \<Rightarrow> bool" where
  "lenZero NilSet = True"
| "lenZero (NameSet S) = (S = {})"

fun deleteNames :: "string list \<Rightarrow> nameSet \<Rightarrow> nameSet" where
  "deleteNames resourceNames NilSet = NilSet"
| "deleteNames resourceNames (NameSet S) = NameSet (fold (\<lambda>name R. R - {name}) resourceNames S)"

record pendingCompletion =
  version :: uint64
  typeURL :: string
  remainingNodesResources :: "string \<rightharpoonup> nameSet"

subsection \<open>The wrapped mutator\<close>

text \<open>
  \<open>ResourceMutator\<close> is an interface whose implementation is not part of ack.go. Its
  store is a state of an arbitrary type \<open>'s\<close> and its two methods are parameters: each
  returns the version, whether the store changed, and a revert function, which may be
  nil. The revert function returns a version and a second result that ack.go discards.
\<close>

type_synonym 's ResourceMutatorRevertFunc = "'s \<Rightarrow> uint64 \<times> 's"

record ('s, 'r) ResourceMutator =
  mutUpsert :: "string \<Rightarrow> string \<Rightarrow> 'r \<Rightarrow> 's \<Rightarrow> (uint64 \<times> bool \<times> 's ResourceMutatorRevertFunc option) \<times> 's"
  mutDelete :: "string \<Rightarrow> string \<Rightarrow> 's \<Rightarrow> (uint64 \<times> bool \<times> 's ResourceMutatorRevertFunc option) \<times> 's"

subsection \<open>AckingResourceMutatorWrapper and what it acts on\<close>

text \<open>
  The first five fields are those of the Go struct (the logger, the lock and the metrics
  sink are left out: they return nothing and change none of these fields; a call of
  \<open>IncreaseACK\<close> or \<open>IncreaseNACK\<close> goes with each call of \<open>Complete\<close>).

  The other four are the completions and callbacks the wrapper acts on, which live
  outside it:
  \<^item> \<open>ctxErr c\<close>: \<open>c.Err() != nil\<close>, the completion's context is canceled or timed out;
  \<^item> \<open>completed c\<close>: the arguments of the calls \<open>c.Complete(err)\<close> made so far, oldest
    first (\<open>None\<close> is nil);
  \<^item> \<open>created c\<close>: the callback \<open>c\<close> was created with by \<open>AddCompletionWithCallback\<close>;
  \<^item> \<open>called\<close>: the callbacks the wrapper invoked itself, with their argument.
\<close>

record ('s, 'cb) state =
  mutator :: 's
  version :: uint64
  ackedVersions :: "string \<rightharpoonup> uint64"
  pendingCompletions :: "cptr \<rightharpoonup> pendingCompletion"
  restoring :: bool
  ctxErr :: "cptr \<Rightarrow> bool"
  completed :: "cptr \<Rightarrow> ProxyError option list"
  created :: "cptr \<rightharpoonup> 'cb option"
  called :: "('cb \<times> ProxyError option) list"

text \<open>
  Modelled from the spec: pkg/completion is not among the sources. A WaitGroup is
  given by the completion its next \<open>AddCompletionWithCallback\<close> returns (\<open>None\<close> is a nil
  WaitGroup); the call records the callback the completion carries. \<open>Complete\<close> records
  its argument. \<open>cancel\<close> is the caller's context ending.
\<close>

definition AddCompletionWithCallback :: "cptr \<Rightarrow> 'cb option \<Rightarrow> ('s, 'cb) state \<Rightarrow> ('s, 'cb) state" where
  "AddCompletionWithCallback c callback s = s\<lparr>created := (created s)(c \<mapsto> callback)\<rparr>"

definition cancel :: "cptr \<Rightarrow> ('s, 'cb) state \<Rightarrow> ('s, 'cb) state" where
  "cancel c s = s\<lparr>ctxErr := (ctxErr s)(c := True)\<rparr>"

text \<open>\<open>if callback != nil { callback(nil) }\<close>\<close>

definition callbackNil :: "'cb option \<Rightarrow> ('s, 'cb) state \<Rightarrow> ('s, 'cb) state" where
  "callbackNil callback s =
     (case callback of None \<Rightarrow> s | Some cb \<Rightarrow> s\<lparr>called := called s @ [(cb, None)]\<rparr>)"

text \<open>
  \<open>wait := wg != nil; if m.restoring { wait = false }\<close>: the result is the WaitGroup's
  completion when the call waits, and \<open>None\<close> when it does not.
\<close>

definition waitFor :: "cptr option \<Rightarrow> bool \<Rightarrow> cptr option" where
  "waitFor wg rest = (if rest then None else wg)"

definition MarkRestorePending :: "('s, 'cb) state \<Rightarrow> ('s, 'cb) state" where
  "MarkRestorePending s = s\<lparr>restoring := True\<rparr>"

definition MarkRestoreCompleted :: "('s, 'cb) state \<Rightarrow> ('s, 'cb) state" where
  "MarkRestoreCompleted s = s\<lparr>restoring := False\<rparr>"

definition addVersionCompletion ::
  "string \<Rightarrow> uint64 \<Rightarrow> string list \<Rightarrow> cptr \<Rightarrow> ('s, 'cb) state \<Rightarrow> ('s, 'cb) state" where
  "addVersionCompletion url ver nodeIDs c s =
     (let comp = \<lparr>pendingCompletion.version = ver, typeURL = url,
                  remainingNodesResources = fold (\<lambda>nodeID r. r(nodeID \<mapsto> NilSet)) nodeIDs Map.empty\<rparr>
      in s\<lparr>pendingCompletions := (pendingCompletions s)(c \<mapsto> comp)\<rparr>)"

fun currentVersionAcked :: "string list \<Rightarrow> ('s, 'cb) state \<Rightarrow> bool" where
  "currentVersionAcked [] s = True"
| "currentVersionAcked (node # nodeIDs) s =
     (case ackedVersions s node of
        None \<Rightarrow> False
      | Some acked \<Rightarrow> if acked < version s then False else currentVersionAcked nodeIDs s)"

definition useCurrent ::
  "string \<Rightarrow> string list \<Rightarrow> cptr \<Rightarrow> 'cb option \<Rightarrow> ('s, 'cb) state \<Rightarrow> ('s, 'cb) state" where
  "useCurrent url nodeIDs wg callback s =
     (if \<not> currentVersionAcked nodeIDs s
      then addVersionCompletion url (version s) nodeIDs wg (AddCompletionWithCallback wg callback s)
      else s)"

definition UseCurrent ::
  "string \<Rightarrow> string list \<Rightarrow> cptr option \<Rightarrow> ('s, 'cb) state \<Rightarrow> ('s, 'cb) state" where
  "UseCurrent url nodeIDs wg s =
     (case waitFor wg (restoring s) of
        Some w \<Rightarrow> useCurrent url nodeIDs w None s
      | None \<Rightarrow> s)"

definition DeleteNode :: "string \<Rightarrow> ('s, 'cb) state \<Rightarrow> ('s, 'cb) state" where
  "DeleteNode nodeID s = s\<lparr>ackedVersions := (ackedVersions s)(nodeID := None)\<rparr>"

text \<open>
  The closure returned by a changed \<open>Upsert\<close> or \<open>Delete\<close> (the two bodies are the
  same): it captures \<open>typeURL\<close>, \<open>nodeIDs\<close> and the store's \<open>revert\<close>.
\<close>

type_synonym ('s, 'cb) AckingResourceMutatorRevertFunc =
  "cptr option \<Rightarrow> ('s, 'cb) state \<Rightarrow> ('s, 'cb) state"

definition revertFunc ::
  "string \<Rightarrow> string list \<Rightarrow> 's ResourceMutatorRevertFunc option \<Rightarrow> ('s, 'cb) AckingResourceMutatorRevertFunc" where
  "revertFunc url nodeIDs revert completion s =
     (case revert of
        None \<Rightarrow> s
      | Some r \<Rightarrow>
          (let (ver, store) = r (mutator s);
               s1 = s\<lparr>mutator := store, version := ver\<rparr>
           in case completion of
                None \<Rightarrow> s1
              | Some c \<Rightarrow> addVersionCompletion url (version s1) nodeIDs c s1))"

text \<open>The closure returned when nothing changed: \<open>func(completion) {}\<close>.\<close>

definition emptyRevertFunc :: "('s, 'cb) AckingResourceMutatorRevertFunc" where
  "emptyRevertFunc completion s = s"

text \<open>
  Modelled from the spec: \<open>logging.Fatal\<close> is not among the sources; it ends the
  process, so the call returns nothing and no state is left.
\<close>

datatype exit = Fatal

definition Upsert ::
  "('s, 'r) ResourceMutator \<Rightarrow> string \<Rightarrow> string \<Rightarrow> 'r \<Rightarrow> string list \<Rightarrow> cptr option \<Rightarrow> 'cb option \<Rightarrow>
   ('s, 'cb) state \<Rightarrow> exit + (('s, 'cb) AckingResourceMutatorRevertFunc \<times> ('s, 'cb) state)" where
  "Upsert mut url resourceName resource nodeIDs wg callback s =
     (let wait = waitFor wg (restoring s);
          ((ver, updated, revert), store) = mutUpsert mut url resourceName resource (mutator s);
          s1 = s\<lparr>mutator := store, version := ver\<rparr>
      in if \<not> updated then
           Inr (emptyRevertFunc,
                (case wait of
                   Some w \<Rightarrow> useCurrent url nodeIDs w callback s1
                 | None \<Rightarrow> callbackNil callback s1))
         else
           (case wait of
              Some c \<Rightarrow>
                (let s2 = AddCompletionWithCallback c callback s1
                 in if pendingCompletions s2 c \<noteq> None then Inl Fatal
                    else
                      (let comp = \<lparr>pendingCompletion.version = version s2, typeURL = url,
                                   remainingNodesResources =
                                     fold (\<lambda>nodeID r. r(nodeID \<mapsto> NameSet {resourceName})) nodeIDs Map.empty\<rparr>
                       in Inr (revertFunc url nodeIDs revert,
                               s2\<lparr>pendingCompletions := (pendingCompletions s2)(c \<mapsto> comp)\<rparr>)))
            | None \<Rightarrow> Inr (revertFunc url nodeIDs revert, callbackNil callback s1)))"

definition Delete ::
  "('s, 'r) ResourceMutator \<Rightarrow> string \<Rightarrow> string \<Rightarrow> string list \<Rightarrow> cptr option \<Rightarrow> 'cb option \<Rightarrow>
   ('s, 'cb) state \<Rightarrow> exit + (('s, 'cb) AckingResourceMutatorRevertFunc \<times> ('s, 'cb) state)" where
  "Delete mut url resourceName nodeIDs wg callback s =
     (let wait = waitFor wg (restoring s);
          ((ver, updated, revert), store) = mutDelete mut url resourceName (mutator s);
          s1 = s\<lparr>mutator := store, version := ver\<rparr>
      in if \<not> updated then
           Inr (emptyRevertFunc,
                (case wait of
                   Some w \<Rightarrow> useCurrent url nodeIDs w callback s1
                 | None \<Rightarrow> callbackNil callback s1))
         else
           (case wait of
              Some c \<Rightarrow>
                (let s2 = AddCompletionWithCallback c callback s1
                 in if pendingCompletions s2 c \<noteq> None then Inl Fatal
                    else Inr (revertFunc url nodeIDs revert,
                              addVersionCompletion url (version s2) nodeIDs c s2))
            | None \<Rightarrow> Inr (revertFunc url nodeIDs revert, callbackNil callback s1)))"

subsection \<open>HandleResourceVersionAck\<close>

text \<open>
  The body of the loop over \<open>pendingCompletions\<close>, for one entry: the entry is dropped
  (its context is done), completed with nil or with the NACK error, or kept, with the
  acknowledged names and node taken out of it. The inner maps are changed in place in
  the source, so a kept entry carries the change.
\<close>

datatype outcome = Dropped | Completed "ProxyError option" | Pending pendingCompletion

definition handlePending ::
  "uint64 \<Rightarrow> uint64 \<Rightarrow> string \<Rightarrow> string list \<Rightarrow> string \<Rightarrow> string \<Rightarrow> bool \<Rightarrow> pendingCompletion \<Rightarrow> outcome" where
  "handlePending ackVersion nackVersion nodeIP resourceNames url detail err pending =
     (if err then Dropped
      else if typeURL pending = url \<and> pendingCompletion.version pending \<le> nackVersion then
        (case remainingNodesResources pending nodeIP of
           Some remainingResourceNames \<Rightarrow>
             (let remaining = deleteNames resourceNames remainingResourceNames;
                  nodes = (if lenZero remaining
                           then (remainingNodesResources pending)(nodeIP := None)
                           else (remainingNodesResources pending)(nodeIP \<mapsto> remaining))
              in if dom nodes = {} then
                   Completed (if pendingCompletion.version pending \<le> ackVersion then None
                              else Some \<lparr>Err = ErrNackReceived, Detail = detail\<rparr>)
                 else Pending (pending\<lparr>remainingNodesResources := nodes\<rparr>))
         | None \<Rightarrow> Pending pending)
      else Pending pending)"

text \<open>
  The loop handles each entry on its own, so the new map and the new \<open>Complete\<close> calls
  are given entry by entry; the order in which Go walks the map does not show.
\<close>

definition HandleResourceVersionAck ::
  "uint64 \<Rightarrow> uint64 \<Rightarrow> string \<Rightarrow> string list \<Rightarrow> string \<Rightarrow> string \<Rightarrow> ('s, 'cb) state \<Rightarrow> ('s, 'cb) state" where
  "HandleResourceVersionAck ackVersion nackVersion nodeIP resourceNames url detail s =
     (let acked = (case ackedVersions s nodeIP of
                     None \<Rightarrow> (ackedVersions s)(nodeIP \<mapsto> ackVersion)
                   | Some previouslyAckedVersion \<Rightarrow>
                       if previouslyAckedVersion < ackVersion
                       then (ackedVersions s)(nodeIP \<mapsto> ackVersion)
                       else ackedVersions s);
          result = (\<lambda>comp. map_option
                      (handlePending ackVersion nackVersion nodeIP resourceNames url detail (ctxErr s comp))
                      (pendingCompletions s comp))
      in s\<lparr>ackedVersions := acked,
           pendingCompletions :=
             (\<lambda>comp. case result comp of Some (Pending pending) \<Rightarrow> Some pending | _ \<Rightarrow> None),
           completed :=
             (\<lambda>comp. case result comp of Some (Completed e) \<Rightarrow> completed s comp @ [e] | _ \<Rightarrow> completed s comp)\<rparr>)"

text \<open>A message from a node, and a sequence of them handled in order.\<close>

datatype ack =
  Ack (ackV: uint64) (nackV: uint64) (ackNode: string) (ackNames: "string list") (ackURL: string)
      (ackDetail: string)

fun handleAck :: "ack \<Rightarrow> ('s, 'cb) state \<Rightarrow> ('s, 'cb) state" where
  "handleAck (Ack ackVersion nackVersion nodeIP resourceNames url detail) s =
     HandleResourceVersionAck ackVersion nackVersion nodeIP resourceNames url detail s"

definition handleAcks :: "ack list \<Rightarrow> ('s, 'cb) state \<Rightarrow> ('s, 'cb) state" where
  "handleAcks msgs s = fold handleAck msgs s"

text \<open>
  What a message must be to take node \<open>n\<close> out of a pending completion for version \<open>V\<close>
  and type \<open>url\<close> in which each node waits for the one name \<open>R\<close> (\<open>Some R\<close>, as a
  changed Upsert registers) or for any ack (\<open>None\<close>, the nil set): it comes from \<open>n\<close>,
  has the type, its nackVersion reaches \<open>V\<close>, and it names \<open>R\<close>.
\<close>

definition covers :: "uint64 \<Rightarrow> string \<Rightarrow> string option \<Rightarrow> string \<Rightarrow> ack \<Rightarrow> bool" where
  "covers V url R n m \<longleftrightarrow>
     ackURL m = url \<and> V \<le> nackV m \<and> ackNode m = n \<and>
     (case R of None \<Rightarrow> True | Some name \<Rightarrow> name \<in> set (ackNames m))"

definition allCovered :: "uint64 \<Rightarrow> string \<Rightarrow> string option \<Rightarrow> string list \<Rightarrow> ack list \<Rightarrow> bool" where
  "allCovered V url R nodeIDs msgs \<longleftrightarrow> (\<forall>n \<in> set nodeIDs. \<exists>m \<in> set msgs. covers V url R n m)"

text \<open>The error a NACK completes with, and the argument of \<open>Complete\<close> that message \<open>m\<close> gives for version \<open>V\<close>.\<close>

definition nackError :: "string \<Rightarrow> ProxyError" where
  "nackError detail = \<lparr>Err = ErrNackReceived, Detail = detail\<rparr>"

definition verdict :: "uint64 \<Rightarrow> ack \<Rightarrow> ProxyError option" where
  "verdict V m = (if V \<le> ackV m then None else Some (nackError (ackDetail m)))"

subsection \<open>Construction and test fixtures\<close>

definition NewAckingResourceMutatorWrapper :: "'s \<Rightarrow> ('s, 'cb) state" where
  "NewAckingResourceMutatorWrapper store =
     \<lparr>mutator = store, version = 0, ackedVersions = Map.empty, pendingCompletions = Map.empty,
      restoring = False, ctxErr = (\<lambda>c. False), completed = (\<lambda>c. []), created = Map.empty,
      called = []\<rparr>"

text \<open>
  A store for the examples: its state is its version; a mutation that changes it adds
  one, and so does the revert of such a mutation. \<open>changing\<close> says whether mutations
  change the store.
\<close>

definition counterStore :: "bool \<Rightarrow> (uint64, 'r) ResourceMutator" where
  "counterStore changing =
     \<lparr>mutUpsert = (\<lambda>url name resource v.
        if changing then ((v + 1, True, Some (\<lambda>w. (w + 1, w + 1))), v + 1) else ((v, False, None), v)),
      mutDelete = (\<lambda>url name v.
        if changing then ((v + 1, True, Some (\<lambda>w. (w + 1, w + 1))), v + 1) else ((v, False, None), v))\<rparr>"

text \<open>A wrapper around a store at version 4, before any call.\<close>

definition wrapper4 :: "(uint64, string) state" where
  "wrapper4 = NewAckingResourceMutatorWrapper 4"

text \<open>
  The state after the spec's example call on that wrapper: a changed Upsert of
  \<open>bar/foo\<close> of type \<open>cluster\<close> that waits with completion 1 and callback \<open>cb\<close>; the
  store moves to version 5.
\<close>

definition upserted :: "string list \<Rightarrow> (uint64, string) state" where
  "upserted nodeIDs =
     (case Upsert (counterStore True) ''cluster'' ''bar/foo'' () nodeIDs (Some 1) (Some ''cb'') wrapper4 of
        Inr (rv, s) \<Rightarrow> s
      | Inl e \<Rightarrow> wrapper4)"

text \<open>The same with a changed Delete.\<close>

definition deleted :: "string list \<Rightarrow> (uint64, string) state" where
  "deleted nodeIDs =
     (case Delete (counterStore True :: (uint64, unit) ResourceMutator) ''cluster'' ''bar/foo'' nodeIDs
             (Some 1) (Some ''cb'') wrapper4 of
        Inr (rv, s) \<Rightarrow> s
      | Inl e \<Rightarrow> wrapper4)"

text \<open>
  The pending completion in which each node of \<open>N\<close> still waits, for the name \<open>R\<close>
  (\<open>Some R\<close>) or for any ack (\<open>None\<close>).
\<close>

definition waitingFor :: "uint64 \<Rightarrow> string \<Rightarrow> string option \<Rightarrow> string set \<Rightarrow> pendingCompletion" where
  "waitingFor V url R N =
     \<lparr>pendingCompletion.version = V, typeURL = url,
      remainingNodesResources =
        (\<lambda>n. if n \<in> N then Some (case R of None \<Rightarrow> NilSet | Some name \<Rightarrow> NameSet {name}) else None)\<rparr>"

section \<open>Basic facts\<close>

lemma ackedVersions_Handle:
  "ackedVersions (HandleResourceVersionAck a n node names url d s) =
     (case ackedVersions s node of
        None \<Rightarrow> (ackedVersions s)(node \<mapsto> a)
      | Some prev \<Rightarrow> if prev < a then (ackedVersions s)(node \<mapsto> a) else ackedVersions s)"
  by (simp add: HandleResourceVersionAck_def Let_def)

lemma ackedVersions_Handle_mono:
  assumes "ackedVersions s x = Some v"
  shows "\<exists>v'. ackedVersions (HandleResourceVersionAck a n node names url d s) x = Some v' \<and> v \<le> v'"
  using assms by (auto simp: ackedVersions_Handle split: option.splits)

lemma ackedVersions_handleAcks_mono:
  "ackedVersions s x = Some v \<Longrightarrow> \<exists>v'. ackedVersions (handleAcks msgs s) x = Some v' \<and> v \<le> v'"
proof (induction msgs arbitrary: s v)
  case Nil
  then show ?case by (simp add: handleAcks_def)
next
  case (Cons m msgs)
  obtain a n node names url d where m: "m = Ack a n node names url d"
    by (cases m)
  from ackedVersions_Handle_mono [OF Cons.prems, of a n node names url d]
  obtain v1 where v1: "ackedVersions (handleAck m s) x = Some v1" and le1: "v \<le> v1"
    by (auto simp: m)
  from Cons.IH [OF v1] obtain v' where
    "ackedVersions (handleAcks msgs (handleAck m s)) x = Some v'" and "v1 \<le> v'"
    by blast
  with le1 show ?case
    by (auto simp: handleAcks_def)
qed

lemma fold_upd_const:
  "fold (\<lambda>nodeID r. r(nodeID \<mapsto> X)) nodeIDs m x = (if x \<in> set nodeIDs then Some X else m x)"
  by (induction nodeIDs arbitrary: m) auto

lemma fold_upd_const_empty:
  "fold (\<lambda>nodeID r. r(nodeID \<mapsto> X)) nodeIDs Map.empty = (\<lambda>x. if x \<in> set nodeIDs then Some X else None)"
  by (rule ext) (simp add: fold_upd_const)


lemma Upsert_restoring:
  assumes "restoring s"
    and "mutUpsert mut url resourceName resource (mutator s) = ((ver, updated, revert), store)"
  shows "Upsert mut url resourceName resource nodeIDs wg callback s =
           Inr (if updated then revertFunc url nodeIDs revert else emptyRevertFunc,
                callbackNil callback (s\<lparr>mutator := store, version := ver\<rparr>))"
  using assms by (simp add: Upsert_def waitFor_def Let_def)

lemma Delete_restoring:
  assumes "restoring s"
    and "mutDelete mut url resourceName (mutator s) = ((ver, updated, revert), store)"
  shows "Delete mut url resourceName nodeIDs wg callback s =
           Inr (if updated then revertFunc url nodeIDs revert else emptyRevertFunc,
                callbackNil callback (s\<lparr>mutator := store, version := ver\<rparr>))"
  using assms by (simp add: Delete_def waitFor_def Let_def)

lemma callbackNil_fields:
  "pendingCompletions (callbackNil callback s) = pendingCompletions s"
  "created (callbackNil callback s) = created s"
  "completed (callbackNil callback s) = completed s"
  "restoring (callbackNil callback s) = restoring s"
  "called (callbackNil callback s) = called s @ (case callback of None \<Rightarrow> [] | Some cb \<Rightarrow> [(cb, None)])"
  by (simp_all add: callbackNil_def split: option.splits)

subsection \<open>What HandleResourceVersionAck does to one completion\<close>

lemma pendingCompletions_Handle:
  "pendingCompletions (HandleResourceVersionAck a n node names url d s) c =
     (case pendingCompletions s c of
        None \<Rightarrow> None
      | Some p \<Rightarrow> (case handlePending a n node names url d (ctxErr s c) p of
                     Pending p' \<Rightarrow> Some p' | _ \<Rightarrow> None))"
  by (simp add: HandleResourceVersionAck_def Let_def split: option.splits outcome.splits)

lemma completed_Handle:
  "completed (HandleResourceVersionAck a n node names url d s) c =
     (case pendingCompletions s c of
        None \<Rightarrow> completed s c
      | Some p \<Rightarrow> (case handlePending a n node names url d (ctxErr s c) p of
                     Completed e \<Rightarrow> completed s c @ [e] | _ \<Rightarrow> completed s c))"
  by (simp add: HandleResourceVersionAck_def Let_def split: option.splits outcome.splits)

lemma ctxErr_Handle [simp]:
  "ctxErr (HandleResourceVersionAck a n node names url d s) = ctxErr s"
  by (simp add: HandleResourceVersionAck_def Let_def)

lemma ctxErr_handleAcks [simp]: "ctxErr (handleAcks msgs s) = ctxErr s"
  unfolding handleAcks_def
proof (induction msgs arbitrary: s)
  case Nil
  show ?case by simp
next
  case (Cons m msgs)
  then show ?case by (cases m) simp
qed

lemma handleAcks_Nil [simp]: "handleAcks [] s = s"
  by (simp add: handleAcks_def)

lemma handleAcks_Cons [simp]: "handleAcks (m # msgs) s = handleAcks msgs (handleAck m s)"
  by (simp add: handleAcks_def)

lemma handleAcks_append [simp]: "handleAcks (ms @ msgs) s = handleAcks msgs (handleAcks ms s)"
  by (simp add: handleAcks_def)

lemma handleAck_sel:
  "handleAck m s = HandleResourceVersionAck (ackV m) (nackV m) (ackNode m) (ackNames m) (ackURL m) (ackDetail m) s"
  by (cases m) simp

lemma not_pending_Handle:
  assumes "pendingCompletions s c = None"
  shows "pendingCompletions (HandleResourceVersionAck a n node names url d s) c = None"
    and "completed (HandleResourceVersionAck a n node names url d s) c = completed s c"
  using assms by (simp_all add: pendingCompletions_Handle completed_Handle)

lemma not_pending_handleAcks:
  "pendingCompletions s c = None \<Longrightarrow>
     pendingCompletions (handleAcks msgs s) c = None \<and> completed (handleAcks msgs s) c = completed s c"
proof (induction msgs arbitrary: s)
  case Nil
  then show ?case by simp
next
  case (Cons m msgs)
  from Cons.prems have "pendingCompletions (handleAck m s) c = None"
    and "completed (handleAck m s) c = completed s c"
    by (simp_all add: handleAck_sel not_pending_Handle)
  with Cons.IH [of "handleAck m s"] show ?case by simp
qed

lemma canceled_Handle:
  assumes "ctxErr s c"
  shows "pendingCompletions (HandleResourceVersionAck a n node names url d s) c = None"
    and "completed (HandleResourceVersionAck a n node names url d s) c = completed s c"
  using assms
  by (simp_all add: pendingCompletions_Handle completed_Handle handlePending_def split: option.splits)

subsection \<open>The fixtures\<close>

lemma counterStore_Upsert: "mutUpsert (counterStore True) url name r v = ((v + 1, True, Some (\<lambda>w. (w + 1, w + 1))), v + 1)"
  by (simp add: counterStore_def)

lemma counterStore_Delete: "mutDelete (counterStore True) url name v = ((v + 1, True, Some (\<lambda>w. (w + 1, w + 1))), v + 1)"
  by (simp add: counterStore_def)

lemma wrapper4_fields: "mutator wrapper4 = 4" "restoring wrapper4 = False" "pendingCompletions wrapper4 = Map.empty"
  "version wrapper4 = 0" "ctxErr wrapper4 = (\<lambda>c. False)" "completed wrapper4 = (\<lambda>c. [])" "created wrapper4 = Map.empty"
  "called wrapper4 = []" "ackedVersions wrapper4 = Map.empty"
  by (simp_all add: wrapper4_def NewAckingResourceMutatorWrapper_def)


lemma Upsert_wrapper4:
  "Upsert (counterStore True) ''cluster'' ''bar/foo'' () nodeIDs (Some 1) (Some ''cb'') wrapper4 =
     Inr (revertFunc ''cluster'' nodeIDs (Some (\<lambda>w. (w + 1, w + 1))), upserted nodeIDs)"
  by (simp add: upserted_def Upsert_def waitFor_def Let_def AddCompletionWithCallback_def counterStore_Upsert counterStore_Delete wrapper4_fields)

lemma upserted_fields:
  "pendingCompletions (upserted nodeIDs) =
     [1 \<mapsto> \<lparr>pendingCompletion.version = 5, typeURL = ''cluster'',
             remainingNodesResources = (\<lambda>n. if n \<in> set nodeIDs then Some (NameSet {''bar/foo''}) else None)\<rparr>]"
  "ctxErr (upserted nodeIDs) = (\<lambda>c. False)"
  "completed (upserted nodeIDs) = (\<lambda>c. [])"
  "created (upserted nodeIDs) = [1 \<mapsto> Some ''cb'']"
  "version (upserted nodeIDs) = 5"
  "mutator (upserted nodeIDs) = 5"
  "restoring (upserted nodeIDs) = False"
  "called (upserted nodeIDs) = []"
  by (simp_all add: upserted_def Upsert_def waitFor_def Let_def AddCompletionWithCallback_def counterStore_Upsert counterStore_Delete wrapper4_fields fold_upd_const_empty)

lemma Delete_wrapper4:
  "Delete (counterStore True :: (uint64, unit) ResourceMutator) ''cluster'' ''bar/foo'' nodeIDs (Some 1) (Some ''cb'') wrapper4 =
     Inr (revertFunc ''cluster'' nodeIDs (Some (\<lambda>w. (w + 1, w + 1))), deleted nodeIDs)"
  by (simp add: deleted_def Delete_def waitFor_def Let_def AddCompletionWithCallback_def counterStore_Upsert counterStore_Delete wrapper4_fields)

lemma deleted_fields:
  "pendingCompletions (deleted nodeIDs) =
     [1 \<mapsto> \<lparr>pendingCompletion.version = 5, typeURL = ''cluster'',
             remainingNodesResources = (\<lambda>n. if n \<in> set nodeIDs then Some NilSet else None)\<rparr>]"
  "ctxErr (deleted nodeIDs) = (\<lambda>c. False)"
  "completed (deleted nodeIDs) = (\<lambda>c. [])"
  "created (deleted nodeIDs) = [1 \<mapsto> Some ''cb'']"
  "version (deleted nodeIDs) = 5"
  "mutator (deleted nodeIDs) = 5"
  "restoring (deleted nodeIDs) = False"
  "called (deleted nodeIDs) = []"
  by (simp_all add: deleted_def Delete_def waitFor_def Let_def AddCompletionWithCallback_def counterStore_Upsert counterStore_Delete wrapper4_fields addVersionCompletion_def fold_upd_const_empty)

subsection \<open>Canceled completions and entries that stay\<close>

lemma cancel_fields [simp]:
  "pendingCompletions (cancel c s) = pendingCompletions s"
  "completed (cancel c s) = completed s"
  "ctxErr (cancel c s) c"
  by (simp_all add: cancel_def)

lemma canceled_handleAcks:
  assumes "ctxErr s c"
  shows "completed (handleAcks msgs s) c = completed s c"
    and "msgs \<noteq> [] \<Longrightarrow> pendingCompletions (handleAcks msgs s) c = None"
proof -
  have step: "pendingCompletions (handleAck m s) c = None \<and> completed (handleAck m s) c = completed s c" for m
    using assms by (simp add: handleAck_sel canceled_Handle)
  show "completed (handleAcks msgs s) c = completed s c"
  proof (cases msgs)
    case Nil
    then show ?thesis by simp
  next
    case (Cons m ms)
    with step [of m] not_pending_handleAcks [of "handleAck m s" c ms] show ?thesis by simp
  qed
  show "pendingCompletions (handleAcks msgs s) c = None" if "msgs \<noteq> []"
  proof (cases msgs)
    case Nil
    with that show ?thesis by simp
  next
    case (Cons m ms)
    with step [of m] not_pending_handleAcks [of "handleAck m s" c ms] show ?thesis by simp
  qed
qed

lemma addVersionCompletion_keeps:
  "\<exists>p. pendingCompletions s c = Some p \<Longrightarrow>
     \<exists>p. pendingCompletions (addVersionCompletion url ver nodeIDs c' s) c = Some p"
  by (simp add: addVersionCompletion_def)

lemma useCurrent_keeps:
  "\<exists>p. pendingCompletions s c = Some p \<Longrightarrow>
     \<exists>p. pendingCompletions (useCurrent url nodeIDs w callback s) c = Some p"
  by (simp add: useCurrent_def addVersionCompletion_def AddCompletionWithCallback_def)

lemma UseCurrent_keeps:
  "\<exists>p. pendingCompletions s c = Some p \<Longrightarrow>
     \<exists>p. pendingCompletions (UseCurrent url nodeIDs wg s) c = Some p"
  by (simp add: UseCurrent_def useCurrent_keeps split: option.splits)

lemma Upsert_keeps:
  assumes "\<exists>p. pendingCompletions s c = Some p"
    and "Upsert mut url resourceName resource nodeIDs wg callback s = Inr (rv, s')"
  shows "\<exists>p. pendingCompletions s' c = Some p"
proof -
  obtain ver updated revert store where
    u: "mutUpsert mut url resourceName resource (mutator s) = ((ver, updated, revert), store)"
    by (metis prod.exhaust)
  let ?s1 = "s\<lparr>mutator := store, version := ver\<rparr>"
  have k: "\<exists>p. pendingCompletions ?s1 c = Some p"
    using assms(1) by simp
  from assms(2) u show ?thesis
    using useCurrent_keeps [OF k] k
    by (auto simp: Upsert_def Let_def AddCompletionWithCallback_def callbackNil_fields
             split: if_splits option.splits)
qed

lemma Delete_keeps:
  assumes "\<exists>p. pendingCompletions s c = Some p"
    and "Delete mut url resourceName nodeIDs wg callback s = Inr (rv, s')"
  shows "\<exists>p. pendingCompletions s' c = Some p"
proof -
  obtain ver updated revert store where
    u: "mutDelete mut url resourceName (mutator s) = ((ver, updated, revert), store)"
    by (metis prod.exhaust)
  let ?s1 = "s\<lparr>mutator := store, version := ver\<rparr>"
  have k: "\<exists>p. pendingCompletions ?s1 c = Some p"
    using assms(1) by simp
  from assms(2) u show ?thesis
    using useCurrent_keeps [OF k] k
    by (auto simp: Delete_def Let_def AddCompletionWithCallback_def addVersionCompletion_def
               callbackNil_fields
             split: if_splits option.splits)
qed

subsection \<open>A completion without nodes\<close>

lemma no_nodes_Handle:
  assumes "pendingCompletions s c = Some p" and "remainingNodesResources p = Map.empty" and "\<not> ctxErr s c"
  shows "pendingCompletions (HandleResourceVersionAck a n node names url d s) c = Some p"
    and "completed (HandleResourceVersionAck a n node names url d s) c = completed s c"
  using assms by (simp_all add: pendingCompletions_Handle completed_Handle handlePending_def)

lemma no_nodes_handleAcks:
  "pendingCompletions s c = Some p \<Longrightarrow> remainingNodesResources p = Map.empty \<Longrightarrow> \<not> ctxErr s c \<Longrightarrow>
     pendingCompletions (handleAcks msgs s) c = Some p \<and> completed (handleAcks msgs s) c = completed s c"
proof (induction msgs arbitrary: s)
  case Nil
  then show ?case by simp
next
  case (Cons m msgs)
  have "pendingCompletions (handleAck m s) c = Some p" and "completed (handleAck m s) c = completed s c"
    and "\<not> ctxErr (handleAck m s) c"
    using Cons.prems by (simp_all add: handleAck_sel no_nodes_Handle)
  with Cons.IH [of "handleAck m s"] Cons.prems(2) show ?case by simp
qed

lemma no_nodes_forever:
  assumes "pendingCompletions s c = Some p" and "remainingNodesResources p = Map.empty" and "\<not> ctxErr s c"
  shows "pendingCompletions (handleAcks msgs s) c = Some p \<and>
         completed (handleAcks msgs s) c = completed s c \<and>
         pendingCompletions (handleAcks (m # msgs') (cancel c (handleAcks msgs s))) c = None \<and>
         completed (handleAcks (m # msgs') (cancel c (handleAcks msgs s))) c = completed s c"
proof -
  have 1: "pendingCompletions (handleAcks msgs s) c = Some p"
    and 2: "completed (handleAcks msgs s) c = completed s c"
    using no_nodes_handleAcks [OF assms] by simp_all
  have e: "ctxErr (cancel c (handleAcks msgs s)) c"
    by simp
  have 3: "pendingCompletions (handleAcks (m # msgs') (cancel c (handleAcks msgs s))) c = None"
    by (rule canceled_handleAcks(2) [OF e]) simp
  have 4: "completed (handleAcks (m # msgs') (cancel c (handleAcks msgs s))) c = completed s c"
    using canceled_handleAcks(1) [OF e, of "m # msgs'"] 2 by simp
  from 1 2 3 4 show ?thesis by blast
qed

subsection \<open>Coverage of the targeted nodes\<close>

lemma covers_node: "covers V url R n m \<Longrightarrow> ackNode m = n"
  by (simp add: covers_def)

lemma waitingFor_sel [simp]:
  "pendingCompletion.version (waitingFor V url R N) = V"
  "typeURL (waitingFor V url R N) = url"
  "remainingNodesResources (waitingFor V url R N) n =
     (if n \<in> N then Some (case R of None \<Rightarrow> NilSet | Some name \<Rightarrow> NameSet {name}) else None)"
  by (simp_all add: waitingFor_def)

lemma waitingFor_remove:
  "(waitingFor V url R N)\<lparr>remainingNodesResources := (remainingNodesResources (waitingFor V url R N))(x := None)\<rparr>
     = waitingFor V url R (N - {x})"
  by (auto simp: waitingFor_def)

lemma waitingFor_dom: "dom (remainingNodesResources (waitingFor V url R N)) = N"
  by (auto simp: waitingFor_def split: if_splits)

lemma fold_delete: "fold (\<lambda>name R. R - {name}) names S = S - set names"
  by (induction names arbitrary: S) auto

lemma lenZero_waiting:
  "lenZero (deleteNames names (case R of None \<Rightarrow> NilSet | Some name \<Rightarrow> NameSet {name}))
     \<longleftrightarrow> (case R of None \<Rightarrow> True | Some name \<Rightarrow> name \<in> set names)"
  by (auto simp: fold_delete split: option.splits)

lemma deleteNames_waiting_kept:
  "\<not> lenZero (deleteNames names (case R of None \<Rightarrow> NilSet | Some name \<Rightarrow> NameSet {name})) \<Longrightarrow>
     deleteNames names (case R of None \<Rightarrow> NilSet | Some name \<Rightarrow> NameSet {name})
       = (case R of None \<Rightarrow> NilSet | Some name \<Rightarrow> NameSet {name})"
  by (auto simp: fold_delete split: option.splits)

lemma waitingFor_step:
  "handlePending (ackV m) (nackV m) (ackNode m) (ackNames m) (ackURL m) (ackDetail m) False (waitingFor V url R N) =
     (if ackNode m \<in> N \<and> covers V url R (ackNode m) m
      then (if N - {ackNode m} = {} then Completed (verdict V m)
            else Pending (waitingFor V url R (N - {ackNode m})))
      else Pending (waitingFor V url R N))"
proof (cases "ackNode m \<in> N \<and> ackURL m = url \<and> V \<le> nackV m")
  case False
  then show ?thesis
    by (auto simp: handlePending_def covers_def)
next
  case True
  let ?X = "case R of None \<Rightarrow> NilSet | Some name \<Rightarrow> NameSet {name}"
  let ?p = "waitingFor V url R N"
  show ?thesis
  proof (cases "lenZero (deleteNames (ackNames m) ?X)")
    case z: True
    then have cov: "covers V url R (ackNode m) m"
      using True by (simp add: covers_def lenZero_waiting)
    have d: "dom ((remainingNodesResources ?p)(ackNode m := None)) = N - {ackNode m}"
      by (simp add: waitingFor_dom del: dom_eq_empty_conv)
    show ?thesis
      using True z cov d
      by (simp add: handlePending_def Let_def waitingFor_remove verdict_def nackError_def
            del: dom_eq_empty_conv)
  next
    case nz: False
    then have ncov: "\<not> covers V url R (ackNode m) m"
      by (simp add: covers_def lenZero_waiting)
    have same: "(remainingNodesResources ?p)(ackNode m \<mapsto> deleteNames (ackNames m) ?X) = remainingNodesResources ?p"
      using True deleteNames_waiting_kept [OF nz] by (auto simp: fun_eq_iff)
    have d: "dom (remainingNodesResources ?p) \<noteq> {}"
      using True by (simp add: waitingFor_dom del: dom_eq_empty_conv) blast
    show ?thesis
      using True nz ncov d
      by (simp add: handlePending_def Let_def same del: dom_eq_empty_conv)
  qed
qed

lemma waitingFor_run:
  assumes "pendingCompletions s c = Some (waitingFor V url R N)" and "\<not> ctxErr s c"
  shows "{n \<in> N. \<forall>m \<in> set msgs. \<not> covers V url R n m} \<noteq> {} \<Longrightarrow>
           pendingCompletions (handleAcks msgs s) c =
             Some (waitingFor V url R {n \<in> N. \<forall>m \<in> set msgs. \<not> covers V url R n m}) \<and>
           completed (handleAcks msgs s) c = completed s c"
proof (induction msgs rule: rev_induct)
  case Nil
  then show ?case using assms by simp
next
  case (snoc m ms)
  let ?U = "{n \<in> N. \<forall>m \<in> set ms. \<not> covers V url R n m}"
  let ?U' = "{n \<in> N. \<forall>m \<in> set (ms @ [m]). \<not> covers V url R n m}"
  have sub: "?U' \<subseteq> ?U" by auto
  with snoc.prems have ne: "?U \<noteq> {}" by blast
  from snoc.IH [OF ne]
  have p: "pendingCompletions (handleAcks ms s) c = Some (waitingFor V url R ?U)"
    and k: "completed (handleAcks ms s) c = completed s c"
    by simp_all
  have e: "\<not> ctxErr (handleAcks ms s) c"
    using assms(2) by simp
  have U': "?U' = (if ackNode m \<in> ?U \<and> covers V url R (ackNode m) m then ?U - {ackNode m} else ?U)"
    using covers_node [of V url R _ m] by auto
  show ?case
  proof (cases "ackNode m \<in> ?U \<and> covers V url R (ackNode m) m")
    case True
    with U' have eq: "?U' = ?U - {ackNode m}" by (simp only: if_True simp_thms)
    have "?U - {ackNode m} \<noteq> {}"
      using snoc.prems unfolding eq .
    with True have "handlePending (ackV m) (nackV m) (ackNode m) (ackNames m) (ackURL m) (ackDetail m) False
            (waitingFor V url R ?U) = Pending (waitingFor V url R ?U')"
      unfolding eq by (simp only: waitingFor_step if_True if_False simp_thms)
    with p k e show ?thesis
      by (simp add: handleAck_sel pendingCompletions_Handle completed_Handle)
  next
    case False
    with U' have eq: "?U' = ?U" by (simp only: if_False simp_thms)
    from False have "handlePending (ackV m) (nackV m) (ackNode m) (ackNames m) (ackURL m) (ackDetail m) False
            (waitingFor V url R ?U) = Pending (waitingFor V url R ?U')"
      unfolding eq by (simp only: waitingFor_step if_True if_False simp_thms)
    with p k e show ?thesis
      by (simp add: handleAck_sel pendingCompletions_Handle completed_Handle)
  qed
qed

lemma waitingFor_completes:
  assumes "pendingCompletions s c = Some (waitingFor V url R N)" and "\<not> ctxErr s c"
    and "{n \<in> N. \<forall>m \<in> set ms. \<not> covers V url R n m} \<noteq> {}"
    and "{n \<in> N. \<forall>m' \<in> set (ms @ [m]). \<not> covers V url R n m'} = {}"
  shows "pendingCompletions (handleAcks (ms @ m # rest) s) c = None \<and>
         completed (handleAcks (ms @ m # rest) s) c = completed s c @ [verdict V m]"
proof -
  let ?U = "{n \<in> N. \<forall>m \<in> set ms. \<not> covers V url R n m}"
  from waitingFor_run [OF assms(1,2) assms(3)]
  have p: "pendingCompletions (handleAcks ms s) c = Some (waitingFor V url R ?U)"
    and k: "completed (handleAcks ms s) c = completed s c"
    by simp_all
  have e: "\<not> ctxErr (handleAcks ms s) c"
    using assms(2) by simp
  from assms(3) obtain n where n: "n \<in> ?U" by blast
  with assms(4) have "covers V url R n m" by auto
  with n covers_node [of V url R n m] have in_U: "ackNode m \<in> ?U" and cov: "covers V url R (ackNode m) m"
    by auto
  have "?U - {ackNode m} = {}"
  proof (rule ccontr)
    assume "?U - {ackNode m} \<noteq> {}"
    then obtain x where x: "x \<in> ?U" and ne: "x \<noteq> ackNode m" by blast
    with assms(4) have "covers V url R x m" by auto
    with ne covers_node [of V url R x m] show False by simp
  qed
  with in_U cov have "handlePending (ackV m) (nackV m) (ackNode m) (ackNames m) (ackURL m) (ackDetail m) False
            (waitingFor V url R ?U) = Completed (verdict V m)"
    by (simp only: waitingFor_step if_True simp_thms)
  with p k e have "pendingCompletions (handleAck m (handleAcks ms s)) c = None"
    and "completed (handleAck m (handleAcks ms s)) c = completed s c @ [verdict V m]"
    by (simp_all add: handleAck_sel pendingCompletions_Handle completed_Handle)
  with not_pending_handleAcks [of "handleAck m (handleAcks ms s)" c rest]
  show ?thesis by simp
qed

lemma allCovered_iff:
  "allCovered V url R nodeIDs msgs \<longleftrightarrow> {n \<in> set nodeIDs. \<forall>m \<in> set msgs. \<not> covers V url R n m} = {}"
  by (auto simp: allCovered_def)

lemma waitingFor_Some:
  "waitingFor V url (Some R) N =
     \<lparr>pendingCompletion.version = V, typeURL = url,
      remainingNodesResources = (\<lambda>n. if n \<in> N then Some (NameSet {R}) else None)\<rparr>"
  by (simp add: waitingFor_def cong: if_cong)

lemma waitingFor_None:
  "waitingFor V url None N =
     \<lparr>pendingCompletion.version = V, typeURL = url,
      remainingNodesResources = (\<lambda>n. if n \<in> N then Some NilSet else None)\<rparr>"
  by (simp add: waitingFor_def cong: if_cong)

lemma Upsert_changed_waiting:
  assumes "\<not> restoring s" and "pendingCompletions s c = None"
    and "mutUpsert mut url R resource (mutator s) = ((V, True, revert), store)"
  shows "Upsert mut url R resource nodeIDs (Some c) callback s =
           Inr (revertFunc url nodeIDs revert,
                s\<lparr>mutator := store, version := V, created := (created s)(c \<mapsto> callback),
                  pendingCompletions := (pendingCompletions s)(c \<mapsto> waitingFor V url (Some R) (set nodeIDs))\<rparr>)"
  using assms
  by (simp add: Upsert_def waitFor_def Let_def AddCompletionWithCallback_def waitingFor_Some fold_upd_const_empty)

lemma Delete_changed_waiting:
  assumes "\<not> restoring s" and "pendingCompletions s c = None"
    and "mutDelete mut url R (mutator s) = ((V, True, revert), store)"
  shows "Delete mut url R nodeIDs (Some c) callback s =
           Inr (revertFunc url nodeIDs revert,
                s\<lparr>mutator := store, version := V, created := (created s)(c \<mapsto> callback),
                  pendingCompletions := (pendingCompletions s)(c \<mapsto> waitingFor V url None (set nodeIDs))\<rparr>)"
  using assms
  by (simp add: Delete_def waitFor_def Let_def AddCompletionWithCallback_def addVersionCompletion_def
        waitingFor_None fold_upd_const_empty)

lemma waitingFor_coverage:
  assumes "pendingCompletions s1 c = Some (waitingFor V url R (set nodeIDs))" and "\<not> ctxErr s1 c"
  shows "(\<not> allCovered V url R nodeIDs msgs \<longrightarrow>
            pendingCompletions (handleAcks msgs s1) c \<noteq> None \<and>
            completed (handleAcks msgs s1) c = completed s1 c) \<and>
         (\<not> allCovered V url R nodeIDs ms \<and> allCovered V url R nodeIDs (ms @ [m]) \<longrightarrow>
            pendingCompletions (handleAcks (ms @ m # rest) s1) c = None \<and>
            completed (handleAcks (ms @ m # rest) s1) c =
              completed s1 c @ [if V \<le> ackV m then None
                                else Some \<lparr>Err = ErrNackReceived, Detail = ackDetail m\<rparr>])"
proof (intro conjI impI)
  assume "\<not> allCovered V url R nodeIDs msgs"
  then have ne: "{n \<in> set nodeIDs. \<forall>m \<in> set msgs. \<not> covers V url R n m} \<noteq> {}"
    by (simp add: allCovered_iff)
  from waitingFor_run [OF assms ne]
  show "pendingCompletions (handleAcks msgs s1) c \<noteq> None"
    and "completed (handleAcks msgs s1) c = completed s1 c"
    by simp_all
next
  assume "\<not> allCovered V url R nodeIDs ms \<and> allCovered V url R nodeIDs (ms @ [m])"
  then have ne: "{n \<in> set nodeIDs. \<forall>m \<in> set ms. \<not> covers V url R n m} \<noteq> {}"
    and em: "{n \<in> set nodeIDs. \<forall>m' \<in> set (ms @ [m]). \<not> covers V url R n m'} = {}"
    by (simp_all add: allCovered_iff)
  from waitingFor_completes [OF assms ne em, of rest]
  show "pendingCompletions (handleAcks (ms @ m # rest) s1) c = None"
    and "completed (handleAcks (ms @ m # rest) s1) c =
              completed s1 c @ [if V \<le> ackV m then None
                                else Some \<lparr>Err = ErrNackReceived, Detail = ackDetail m\<rparr>]"
    by (simp_all add: verdict_def nackError_def)
qed

section \<open>The claims\<close>

text \<open>
  C1, as stated, makes an ack with ackVersion at least V from every targeted node
  necessary for a successful resolution. A node leaves the remaining-nodes map as soon
  as a message of it has nackVersion at least V, and only the message that takes out the
  last node is compared with ackVersion. Here the Upsert is at version 5 for two nodes;
  the first node rejects version 5 (ackVersion 4, nackVersion 5), the second
  acknowledges it, and the completion is completed with nil although the first node
  never sent an ackVersion of 5 or more.
\<close>

theorem C1_counterexample:
  "version (upserted [''10.0.0.1'', ''10.0.0.2'']) = 5 \<and>
   ackNode (Ack 4 5 ''10.0.0.1'' [''bar/foo''] ''cluster'' ''rejected'') = ''10.0.0.1'' \<and>
   \<not> 5 \<le> ackV (Ack 4 5 ''10.0.0.1'' [''bar/foo''] ''cluster'' ''rejected'') \<and>
   ackNode (Ack 5 5 ''10.0.0.2'' [''bar/foo''] ''cluster'' []) \<noteq> ''10.0.0.1'' \<and>
   completed
     (handleAcks [Ack 4 5 ''10.0.0.1'' [''bar/foo''] ''cluster'' ''rejected'',
                  Ack 5 5 ''10.0.0.2'' [''bar/foo''] ''cluster'' []]
        (upserted [''10.0.0.1'', ''10.0.0.2''])) 1 = [None]"
  by (simp add: handleAcks_def HandleResourceVersionAck_def handlePending_def Let_def
        upserted_def Upsert_def waitFor_def AddCompletionWithCallback_def counterStore_def
        wrapper4_def NewAckingResourceMutatorWrapper_def del: dom_eq_empty_conv)

text \<open>
  C1, amended. Take a changed Upsert of resource R at version V for nodes N1..Nk that
  waits (a WaitGroup is given, the wrapper is not restoring, the completion is new and
  its context is not done). Call a node covered by a message when the message comes
  from it, has the typeURL of the Upsert, a nackVersion of at least V, and R among its
  resourceNames. As long as some targeted node is not covered by any message received,
  the completion stays pending and \<open>Complete\<close> is not called. The message with which
  every targeted node is covered for the first time takes the completion out of
  pendingCompletions and completes it: with nil, which fires its callback with nil, if
  and only if that message has ackVersion at least V, and with the NACK error carrying
  that message's detail otherwise. For a changed Delete the same holds with the nil set:
  a message covers its node whatever its resourceNames are.
\<close>

theorem C1_full_coverage:
  assumes "\<not> restoring s" and "pendingCompletions s c = None" and "\<not> ctxErr s c"
  shows
   "(mutUpsert mut url R resource (mutator s) = ((V, True, revert), store) \<longrightarrow>
      (\<exists>rv s1. Upsert mut url R resource nodeIDs (Some c) callback s = Inr (rv, s1) \<and>
         created s1 c = Some callback \<and>
         (\<not> allCovered V url (Some R) nodeIDs msgs \<longrightarrow>
            pendingCompletions (handleAcks msgs s1) c \<noteq> None \<and>
            completed (handleAcks msgs s1) c = completed s c) \<and>
         (\<not> allCovered V url (Some R) nodeIDs ms \<and> allCovered V url (Some R) nodeIDs (ms @ [m]) \<longrightarrow>
            pendingCompletions (handleAcks (ms @ m # rest) s1) c = None \<and>
            completed (handleAcks (ms @ m # rest) s1) c =
              completed s c @ [if V \<le> ackV m then None
                               else Some \<lparr>Err = ErrNackReceived, Detail = ackDetail m\<rparr>]))) \<and>
    (mutDelete mut url R (mutator s) = ((V, True, revert), store) \<longrightarrow>
      (\<exists>rv s1. Delete mut url R nodeIDs (Some c) callback s = Inr (rv, s1) \<and>
         created s1 c = Some callback \<and>
         (\<not> allCovered V url None nodeIDs msgs \<longrightarrow>
            pendingCompletions (handleAcks msgs s1) c \<noteq> None \<and>
            completed (handleAcks msgs s1) c = completed s c) \<and>
         (\<not> allCovered V url None nodeIDs ms \<and> allCovered V url None nodeIDs (ms @ [m]) \<longrightarrow>
            pendingCompletions (handleAcks (ms @ m # rest) s1) c = None \<and>
            completed (handleAcks (ms @ m # rest) s1) c =
              completed s c @ [if V \<le> ackV m then None
                               else Some \<lparr>Err = ErrNackReceived, Detail = ackDetail m\<rparr>])))"
proof (intro conjI impI)
  assume u: "mutUpsert mut url R resource (mutator s) = ((V, True, revert), store)"
  define s1 where "s1 = s\<lparr>mutator := store, version := V, created := (created s)(c \<mapsto> callback),
      pendingCompletions := (pendingCompletions s)(c \<mapsto> waitingFor V url (Some R) (set nodeIDs))\<rparr>"
  have r: "Upsert mut url R resource nodeIDs (Some c) callback s = Inr (revertFunc url nodeIDs revert, s1)"
    unfolding s1_def by (rule Upsert_changed_waiting [OF assms(1,2) u])
  have p: "pendingCompletions s1 c = Some (waitingFor V url (Some R) (set nodeIDs))"
    and e: "\<not> ctxErr s1 c" and k: "completed s1 = completed s" and cr: "created s1 c = Some callback"
    using assms(3) by (simp_all add: s1_def)
  from waitingFor_coverage [OF p e, of msgs ms m rest] r cr
  show "\<exists>rv s1. Upsert mut url R resource nodeIDs (Some c) callback s = Inr (rv, s1) \<and>
         created s1 c = Some callback \<and>
         (\<not> allCovered V url (Some R) nodeIDs msgs \<longrightarrow>
            pendingCompletions (handleAcks msgs s1) c \<noteq> None \<and>
            completed (handleAcks msgs s1) c = completed s c) \<and>
         (\<not> allCovered V url (Some R) nodeIDs ms \<and> allCovered V url (Some R) nodeIDs (ms @ [m]) \<longrightarrow>
            pendingCompletions (handleAcks (ms @ m # rest) s1) c = None \<and>
            completed (handleAcks (ms @ m # rest) s1) c =
              completed s c @ [if V \<le> ackV m then None
                               else Some \<lparr>Err = ErrNackReceived, Detail = ackDetail m\<rparr>])"
    unfolding k by blast
next
  assume u: "mutDelete mut url R (mutator s) = ((V, True, revert), store)"
  define s1 where "s1 = s\<lparr>mutator := store, version := V, created := (created s)(c \<mapsto> callback),
      pendingCompletions := (pendingCompletions s)(c \<mapsto> waitingFor V url None (set nodeIDs))\<rparr>"
  have r: "Delete mut url R nodeIDs (Some c) callback s = Inr (revertFunc url nodeIDs revert, s1)"
    unfolding s1_def by (rule Delete_changed_waiting [OF assms(1,2) u])
  have p: "pendingCompletions s1 c = Some (waitingFor V url None (set nodeIDs))"
    and e: "\<not> ctxErr s1 c" and k: "completed s1 = completed s" and cr: "created s1 c = Some callback"
    using assms(3) by (simp_all add: s1_def)
  from waitingFor_coverage [OF p e, of msgs ms m rest] r cr
  show "\<exists>rv s1. Delete mut url R nodeIDs (Some c) callback s = Inr (rv, s1) \<and>
         created s1 c = Some callback \<and>
         (\<not> allCovered V url None nodeIDs msgs \<longrightarrow>
            pendingCompletions (handleAcks msgs s1) c \<noteq> None \<and>
            completed (handleAcks msgs s1) c = completed s c) \<and>
         (\<not> allCovered V url None nodeIDs ms \<and> allCovered V url None nodeIDs (ms @ [m]) \<longrightarrow>
            pendingCompletions (handleAcks (ms @ m # rest) s1) c = None \<and>
            completed (handleAcks (ms @ m # rest) s1) c =
              completed s c @ [if V \<le> ackV m then None
                               else Some \<lparr>Err = ErrNackReceived, Detail = ackDetail m\<rparr>])"
    unfolding k by blast
qed

theorem C1_full_coverage_witness:
  "created (upserted [''10.0.0.1'', ''10.0.0.2'']) 1 = Some (Some ''cb'') \<and>
   pendingCompletions
     (handleAcks [Ack 5 5 ''10.0.0.1'' [''bar/foo''] ''cluster'' []]
        (upserted [''10.0.0.1'', ''10.0.0.2''])) 1 \<noteq> None \<and>
   completed
     (handleAcks [Ack 5 5 ''10.0.0.1'' [''bar/foo''] ''cluster'' []]
        (upserted [''10.0.0.1'', ''10.0.0.2''])) 1 = [] \<and>
   pendingCompletions
     (handleAcks [Ack 5 5 ''10.0.0.1'' [''bar/foo''] ''cluster'' [],
                  Ack 5 5 ''10.0.0.2'' [''bar/foo''] ''cluster'' []]
        (upserted [''10.0.0.1'', ''10.0.0.2''])) 1 = None \<and>
   completed
     (handleAcks [Ack 5 5 ''10.0.0.1'' [''bar/foo''] ''cluster'' [],
                  Ack 5 5 ''10.0.0.2'' [''bar/foo''] ''cluster'' []]
        (upserted [''10.0.0.1'', ''10.0.0.2''])) 1 = [None] \<and>
   pendingCompletions
     (handleAcks [Ack 5 5 ''10.0.0.1'' [] ''cluster'' []]
        (deleted [''10.0.0.1'', ''10.0.0.2''])) 1 \<noteq> None \<and>
   completed
     (handleAcks [Ack 5 5 ''10.0.0.1'' [] ''cluster'' [], Ack 4 5 ''10.0.0.2'' [] ''cluster'' ''rejected'']
        (deleted [''10.0.0.1'', ''10.0.0.2''])) 1
     = [Some \<lparr>Err = ErrNackReceived, Detail = ''rejected''\<rparr>]"
proof -
  let ?m1 = "Ack 5 5 ''10.0.0.1'' [''bar/foo''] ''cluster'' []"
  let ?m2 = "Ack 5 5 ''10.0.0.2'' [''bar/foo''] ''cluster'' []"
  let ?ns = "[''10.0.0.1'', ''10.0.0.2'']"
  have h: "\<not> restoring wrapper4" "pendingCompletions wrapper4 1 = None" "\<not> ctxErr wrapper4 1"
    by (simp_all add: wrapper4_fields)
  have u: "mutUpsert (counterStore True) ''cluster'' ''bar/foo'' () (mutator wrapper4)
             = ((5, True, Some (\<lambda>w. (w + 1, w + 1))), 5)"
    by (simp add: counterStore_Upsert wrapper4_fields)
  have c1: "\<not> allCovered 5 ''cluster'' (Some ''bar/foo'') ?ns [?m1]"
    by (simp add: allCovered_def covers_def)
  have c2: "\<not> allCovered 5 ''cluster'' (Some ''bar/foo'') ?ns [?m1] \<and>
            allCovered 5 ''cluster'' (Some ''bar/foo'') ?ns ([?m1] @ [?m2])"
    by (simp add: allCovered_def covers_def)
  from C1_full_coverage [OF h,
      of "counterStore True" "''cluster''" "''bar/foo''" "()" 5 "Some (\<lambda>w. (w + 1, w + 1))" 5
         ?ns "Some ''cb''" "[?m1]" "[?m1]" ?m2 "[]",
      THEN conjunct1, THEN mp, OF u]
  obtain rv s1 where
    r: "Upsert (counterStore True) ''cluster'' ''bar/foo'' () ?ns (Some 1) (Some ''cb'') wrapper4 = Inr (rv, s1)"
    and cr: "created s1 1 = Some (Some ''cb'')"
    and a: "\<not> allCovered 5 ''cluster'' (Some ''bar/foo'') ?ns [?m1] \<longrightarrow>
            pendingCompletions (handleAcks [?m1] s1) 1 \<noteq> None \<and>
            completed (handleAcks [?m1] s1) 1 = completed wrapper4 1"
    and b: "\<not> allCovered 5 ''cluster'' (Some ''bar/foo'') ?ns [?m1] \<and>
            allCovered 5 ''cluster'' (Some ''bar/foo'') ?ns ([?m1] @ [?m2]) \<longrightarrow>
            pendingCompletions (handleAcks ([?m1] @ ?m2 # []) s1) 1 = None \<and>
            completed (handleAcks ([?m1] @ ?m2 # []) s1) 1 =
              completed wrapper4 1 @ [if 5 \<le> ackV ?m2 then None
                               else Some \<lparr>Err = ErrNackReceived, Detail = ackDetail ?m2\<rparr>]"
    by blast
  from r have s1: "s1 = upserted ?ns"
    unfolding Upsert_wrapper4 by simp
  let ?d1 = "Ack 5 5 ''10.0.0.1'' [] ''cluster'' []"
  let ?d2 = "Ack 4 5 ''10.0.0.2'' [] ''cluster'' ''rejected''"
  have d: "mutDelete (counterStore True :: (uint64, unit) ResourceMutator) ''cluster'' ''bar/foo'' (mutator wrapper4)
             = ((5, True, Some (\<lambda>w. (w + 1, w + 1))), 5)"
    by (simp add: counterStore_Delete wrapper4_fields)
  have e1: "\<not> allCovered 5 ''cluster'' None ?ns [?d1]"
    by (simp add: allCovered_def covers_def)
  have e2: "\<not> allCovered 5 ''cluster'' None ?ns [?d1] \<and> allCovered 5 ''cluster'' None ?ns ([?d1] @ [?d2])"
    by (simp add: allCovered_def covers_def)
  from C1_full_coverage [OF h,
      of "counterStore True :: (uint64, unit) ResourceMutator" "''cluster''" "''bar/foo''" "()" 5
         "Some (\<lambda>w. (w + 1, w + 1))" 5 ?ns "Some ''cb''" "[?d1]" "[?d1]" ?d2 "[]",
      THEN conjunct2, THEN mp, OF d]
  obtain rv' s2 where
    r': "Delete (counterStore True :: (uint64, unit) ResourceMutator) ''cluster'' ''bar/foo'' ?ns (Some 1) (Some ''cb'') wrapper4
           = Inr (rv', s2)"
    and a': "\<not> allCovered 5 ''cluster'' None ?ns [?d1] \<longrightarrow>
            pendingCompletions (handleAcks [?d1] s2) 1 \<noteq> None \<and>
            completed (handleAcks [?d1] s2) 1 = completed wrapper4 1"
    and b': "\<not> allCovered 5 ''cluster'' None ?ns [?d1] \<and> allCovered 5 ''cluster'' None ?ns ([?d1] @ [?d2]) \<longrightarrow>
            pendingCompletions (handleAcks ([?d1] @ ?d2 # []) s2) 1 = None \<and>
            completed (handleAcks ([?d1] @ ?d2 # []) s2) 1 =
              completed wrapper4 1 @ [if 5 \<le> ackV ?d2 then None
                               else Some \<lparr>Err = ErrNackReceived, Detail = ackDetail ?d2\<rparr>]"
    by blast
  from r' have s2: "s2 = deleted ?ns"
    unfolding Delete_wrapper4 by simp
  from a [THEN mp, OF c1] b [THEN mp, OF c2] cr a' [THEN mp, OF e1] b' [THEN mp, OF e2] show ?thesis
    unfolding s1 s2 by (simp add: wrapper4_fields)
qed

text \<open>
  C2. Let a completion be pending for version V of a typeURL, its context not done, and
  let a HandleResourceVersionAck message of that typeURL with nackVersion at least V take
  out its last remaining node (the node is the only one left and the message clears the
  names it waits for). Then the completion leaves pendingCompletions and is completed:
  with nil if V is at most ackVersion, otherwise with the ProxyError that wraps
  ErrNackReceived and whose Detail is the message's detail string. A message completes
  a pending completion only in this way: only when its node is the only one left.
\<close>

theorem C2_nack_resolution:
  assumes "pendingCompletions s c = Some p"
  shows
   "(\<not> ctxErr s c \<and> typeURL p = url \<and> pendingCompletion.version p \<le> nackVersion \<and>
       remainingNodesResources p nodeIP = Some rn \<and> lenZero (deleteNames resourceNames rn) \<and>
       dom (remainingNodesResources p) = {nodeIP} \<longrightarrow>
       pendingCompletions (HandleResourceVersionAck ackVersion nackVersion nodeIP resourceNames url detail s) c = None \<and>
       completed (HandleResourceVersionAck ackVersion nackVersion nodeIP resourceNames url detail s) c =
         completed s c @ [if pendingCompletion.version p \<le> ackVersion then None
                          else Some \<lparr>Err = ErrNackReceived, Detail = detail\<rparr>]) \<and>
    (completed (HandleResourceVersionAck ackVersion nackVersion nodeIP resourceNames url detail s) c \<noteq> completed s c \<longrightarrow>
       \<not> ctxErr s c \<and> typeURL p = url \<and> pendingCompletion.version p \<le> nackVersion \<and>
       dom (remainingNodesResources p) = {nodeIP})"
proof (intro conjI impI)
  assume a: "\<not> ctxErr s c \<and> typeURL p = url \<and> pendingCompletion.version p \<le> nackVersion \<and>
       remainingNodesResources p nodeIP = Some rn \<and> lenZero (deleteNames resourceNames rn) \<and>
       dom (remainingNodesResources p) = {nodeIP}"
  then have "dom ((remainingNodesResources p)(nodeIP := None)) = {}"
    by (simp del: dom_eq_empty_conv)
  with a have hp: "handlePending ackVersion nackVersion nodeIP resourceNames url detail (ctxErr s c) p =
      Completed (if pendingCompletion.version p \<le> ackVersion then None
                 else Some \<lparr>Err = ErrNackReceived, Detail = detail\<rparr>)"
    by (simp add: handlePending_def Let_def del: dom_eq_empty_conv)
  show "pendingCompletions (HandleResourceVersionAck ackVersion nackVersion nodeIP resourceNames url detail s) c = None"
    by (simp add: pendingCompletions_Handle assms hp)
  show "completed (HandleResourceVersionAck ackVersion nackVersion nodeIP resourceNames url detail s) c =
         completed s c @ [if pendingCompletion.version p \<le> ackVersion then None
                          else Some \<lparr>Err = ErrNackReceived, Detail = detail\<rparr>]"
    by (simp add: completed_Handle assms hp)
next
  assume "completed (HandleResourceVersionAck ackVersion nackVersion nodeIP resourceNames url detail s) c \<noteq> completed s c"
  then obtain e where hp: "handlePending ackVersion nackVersion nodeIP resourceNames url detail (ctxErr s c) p = Completed e"
    by (auto simp: completed_Handle assms split: outcome.splits)
  then have 1: "\<not> ctxErr s c" and 2: "typeURL p = url" and 3: "pendingCompletion.version p \<le> nackVersion"
    by (auto simp: handlePending_def split: if_splits)
  from hp 1 2 3 obtain rn where rn: "remainingNodesResources p nodeIP = Some rn"
    by (auto simp: handlePending_def split: option.splits)
  from hp 1 2 3 rn have "dom (if lenZero (deleteNames resourceNames rn)
                           then (remainingNodesResources p)(nodeIP := None)
                           else (remainingNodesResources p)(nodeIP \<mapsto> deleteNames resourceNames rn)) = {}"
    by (auto simp: handlePending_def Let_def simp del: dom_eq_empty_conv split: if_splits)
  then have "dom (remainingNodesResources p) - {nodeIP} = {}"
    by (auto simp del: dom_eq_empty_conv split: if_splits)
  with rn have "dom (remainingNodesResources p) = {nodeIP}"
    by auto
  with 1 2 3 show "\<not> ctxErr s c" and "typeURL p = url" and "pendingCompletion.version p \<le> nackVersion"
    and "dom (remainingNodesResources p) = {nodeIP}"
    by simp_all
qed

theorem C2_nack_resolution_witness:
  "completed (HandleResourceVersionAck 4 5 ''10.0.0.1'' [''bar/foo''] ''cluster'' ''bad config''
               (upserted [''10.0.0.1''])) 1
     = [Some \<lparr>Err = ErrNackReceived, Detail = ''bad config''\<rparr>] \<and>
   completed (HandleResourceVersionAck 5 5 ''10.0.0.1'' [''bar/foo''] ''cluster'' []
               (upserted [''10.0.0.1''])) 1 = [None] \<and>
   completed (HandleResourceVersionAck 4 5 ''10.0.0.1'' [''bar/foo''] ''cluster'' ''bad config''
               (upserted [''10.0.0.1''])) 1 \<noteq> completed (upserted [''10.0.0.1'']) 1 \<and>
   map_option (\<lambda>p. dom (remainingNodesResources p)) (pendingCompletions (upserted [''10.0.0.1'']) 1)
     = Some {''10.0.0.1''}"
proof -
  let ?p = "\<lparr>pendingCompletion.version = 5, typeURL = ''cluster'',
             remainingNodesResources = (\<lambda>n. if n \<in> set [''10.0.0.1''] then Some (NameSet {''bar/foo''}) else None)\<rparr>"
  have p: "pendingCompletions (upserted [''10.0.0.1'']) 1 = Some ?p"
    by (simp add: upserted_fields)
  have d: "dom (remainingNodesResources ?p) = {''10.0.0.1''}"
    by (auto split: if_splits)
  have h: "\<not> ctxErr (upserted [''10.0.0.1'']) 1 \<and> typeURL ?p = ''cluster'' \<and> pendingCompletion.version ?p \<le> 5 \<and>
       remainingNodesResources ?p ''10.0.0.1'' = Some (NameSet {''bar/foo''}) \<and>
       lenZero (deleteNames [''bar/foo''] (NameSet {''bar/foo''})) \<and>
       dom (remainingNodesResources ?p) = {''10.0.0.1''}"
    using d by (simp add: upserted_fields)
  from C2_nack_resolution [OF p, of "''cluster''" 5 "''10.0.0.1''" "NameSet {''bar/foo''}" "[''bar/foo'']" 4 "''bad config''",
         THEN conjunct1, THEN mp, OF h]
  have a: "completed (HandleResourceVersionAck 4 5 ''10.0.0.1'' [''bar/foo''] ''cluster'' ''bad config''
               (upserted [''10.0.0.1''])) 1
     = [Some \<lparr>Err = ErrNackReceived, Detail = ''bad config''\<rparr>]"
    by (simp add: upserted_fields)
  from C2_nack_resolution [OF p, of "''cluster''" 5 "''10.0.0.1''" "NameSet {''bar/foo''}" "[''bar/foo'']" 5 "[]",
         THEN conjunct1, THEN mp, OF h]
  have b: "completed (HandleResourceVersionAck 5 5 ''10.0.0.1'' [''bar/foo''] ''cluster'' []
               (upserted [''10.0.0.1''])) 1 = [None]"
    by (simp add: upserted_fields)
  have ne: "completed (HandleResourceVersionAck 4 5 ''10.0.0.1'' [''bar/foo''] ''cluster'' ''bad config''
               (upserted [''10.0.0.1''])) 1 \<noteq> completed (upserted [''10.0.0.1'']) 1"
    using a by (simp add: upserted_fields)
  from C2_nack_resolution [OF p, of "''cluster''" 5 "''10.0.0.1''" "NameSet {''bar/foo''}" "[''bar/foo'']" 4 "''bad config''",
         THEN conjunct2, THEN mp, OF ne]
  have c: "dom (remainingNodesResources ?p) = {''10.0.0.1''}"
    by blast
  have "map_option (\<lambda>p. dom (remainingNodesResources p)) (pendingCompletions (upserted [''10.0.0.1'']) 1)
     = Some (dom (remainingNodesResources ?p))"
    by (simp only: p option.map)
  with c have m: "map_option (\<lambda>p. dom (remainingNodesResources p)) (pendingCompletions (upserted [''10.0.0.1'']) 1)
     = Some {''10.0.0.1''}"
    by (simp only:)
  from a b ne m show ?thesis
    by (simp only: simp_thms)
qed

text \<open>
  C3. The acked version recorded for a node never goes down over any sequence of
  HandleResourceVersionAck calls. A call whose ackVersion is at most the recorded value
  leaves the record as it is, and a node without a record gets the message's ackVersion,
  also when that is 0.
\<close>

theorem C3_ackedVersions_monotone:
  "(ackedVersions s x = Some v \<longrightarrow>
      (\<exists>v'. ackedVersions (handleAcks msgs s) x = Some v' \<and> v \<le> v')) \<and>
   (ackedVersions s nodeIP = Some prev \<and> ackVersion \<le> prev \<longrightarrow>
      ackedVersions (HandleResourceVersionAck ackVersion nackVersion nodeIP resourceNames url detail s)
        = ackedVersions s) \<and>
   (ackedVersions s nodeIP = None \<longrightarrow>
      ackedVersions (HandleResourceVersionAck ackVersion nackVersion nodeIP resourceNames url detail s) nodeIP
        = Some ackVersion)"
  using ackedVersions_handleAcks_mono [of s x v msgs]
  by (auto simp: ackedVersions_Handle)

theorem C3_ackedVersions_monotone_witness:
  "ackedVersions (HandleResourceVersionAck 5 5 ''10.0.0.1'' [] ''cluster'' [] wrapper4) ''10.0.0.1'' = Some 5 \<and>
   (\<exists>v'. ackedVersions
      (handleAcks [Ack 3 3 ''10.0.0.1'' [] ''cluster'' [], Ack 7 7 ''10.0.0.1'' [] ''cluster'' []]
         (HandleResourceVersionAck 5 5 ''10.0.0.1'' [] ''cluster'' [] wrapper4)) ''10.0.0.1'' = Some v' \<and> 5 \<le> v') \<and>
   ackedVersions (HandleResourceVersionAck 3 3 ''10.0.0.1'' [] ''cluster'' []
      (HandleResourceVersionAck 5 5 ''10.0.0.1'' [] ''cluster'' [] wrapper4))
     = ackedVersions (HandleResourceVersionAck 5 5 ''10.0.0.1'' [] ''cluster'' [] wrapper4) \<and>
   ackedVersions wrapper4 ''10.0.0.2'' = None \<and>
   ackedVersions (HandleResourceVersionAck 0 0 ''10.0.0.2'' [] ''cluster'' [] wrapper4) ''10.0.0.2'' = Some 0"
proof -
  let ?s = "HandleResourceVersionAck 5 5 ''10.0.0.1'' [] ''cluster'' [] wrapper4"
  have h1: "ackedVersions ?s ''10.0.0.1'' = Some 5"
    by (simp add: ackedVersions_Handle wrapper4_def NewAckingResourceMutatorWrapper_def)
  have h2: "ackedVersions wrapper4 ''10.0.0.2'' = None"
    by (simp add: wrapper4_def NewAckingResourceMutatorWrapper_def)
  from C3_ackedVersions_monotone
    [of ?s "''10.0.0.1''" 5 "[Ack 3 3 ''10.0.0.1'' [] ''cluster'' [], Ack 7 7 ''10.0.0.1'' [] ''cluster'' []]"
        "''10.0.0.1''" 5 3 3 "[]" "''cluster''" "[]"]
    C3_ackedVersions_monotone
    [of wrapper4 "''10.0.0.1''" 5 "[]" "''10.0.0.2''" 5 0 0 "[]" "''cluster''" "[]"]
    h1 h2
  show ?thesis by simp
qed

text \<open>
  C4, as stated, says that a canceled completion is retained until the next ack of the
  matching typeURL. The check of the context comes before the comparison of the typeURL,
  so an ack of any other typeURL drops it too: here a completion pending for
  \<open>cluster\<close> is canceled and an ack for \<open>listener\<close> from a node it does not target
  removes it.
\<close>

theorem C4_counterexample:
  "ctxErr (cancel 1 (upserted [''10.0.0.1''])) 1 \<and>
   map_option typeURL (pendingCompletions (cancel 1 (upserted [''10.0.0.1''])) 1) = Some ''cluster'' \<and>
   ''listener'' \<noteq> ''cluster'' \<and>
   pendingCompletions
     (HandleResourceVersionAck 0 0 ''10.0.0.9'' [] ''listener'' [] (cancel 1 (upserted [''10.0.0.1'']))) 1 = None"
  by (simp add: HandleResourceVersionAck_def handlePending_def Let_def cancel_def
        upserted_def Upsert_def waitFor_def AddCompletionWithCallback_def counterStore_def
        wrapper4_def NewAckingResourceMutatorWrapper_def del: dom_eq_empty_conv)

text \<open>
  C4, amended. A pending completion whose context is canceled or timed out is never
  completed by HandleResourceVersionAck: the next call, whatever its typeURL, node and
  versions, drops it from pendingCompletions without a Complete call, and no later
  message completes it. Until that call it stays in pendingCompletions: DeleteNode,
  MarkRestorePending, MarkRestoreCompleted, UseCurrent, Upsert and Delete do not remove
  an entry.
\<close>

theorem C4_canceled_dropped:
  "(ctxErr s c \<longrightarrow>
      completed (handleAcks msgs s) c = completed s c \<and>
      pendingCompletions (handleAcks (m # msgs) s) c = None \<and>
      completed (handleAcks (m # msgs) s) c = completed s c) \<and>
   (pendingCompletions s c \<noteq> None \<longrightarrow>
      pendingCompletions (DeleteNode nodeID s) c \<noteq> None \<and>
      pendingCompletions (MarkRestorePending s) c \<noteq> None \<and>
      pendingCompletions (MarkRestoreCompleted s) c \<noteq> None \<and>
      pendingCompletions (UseCurrent url nodeIDs wg s) c \<noteq> None \<and>
      (\<forall>rv s'. Upsert mut url resourceName resource nodeIDs wg callback s = Inr (rv, s') \<longrightarrow>
                pendingCompletions s' c \<noteq> None) \<and>
      (\<forall>rv s'. Delete mut url resourceName nodeIDs wg callback s = Inr (rv, s') \<longrightarrow>
                pendingCompletions s' c \<noteq> None))"
proof (intro conjI impI allI)
  assume e: "ctxErr s c"
  show "completed (handleAcks msgs s) c = completed s c"
    by (rule canceled_handleAcks(1) [OF e])
  show "pendingCompletions (handleAcks (m # msgs) s) c = None"
    by (rule canceled_handleAcks(2) [OF e]) simp
  show "completed (handleAcks (m # msgs) s) c = completed s c"
    by (rule canceled_handleAcks(1) [OF e])
next
  assume "pendingCompletions s c \<noteq> None"
  then have k: "\<exists>p. pendingCompletions s c = Some p"
    by simp
  show "pendingCompletions (DeleteNode nodeID s) c \<noteq> None"
    using k by (simp add: DeleteNode_def)
  show "pendingCompletions (MarkRestorePending s) c \<noteq> None"
    using k by (simp add: MarkRestorePending_def)
  show "pendingCompletions (MarkRestoreCompleted s) c \<noteq> None"
    using k by (simp add: MarkRestoreCompleted_def)
  show "pendingCompletions (UseCurrent url nodeIDs wg s) c \<noteq> None"
    using UseCurrent_keeps [OF k] by simp
  show "pendingCompletions s' c \<noteq> None"
    if "Upsert mut url resourceName resource nodeIDs wg callback s = Inr (rv, s')" for rv s'
    using Upsert_keeps [OF k that] by simp
  show "pendingCompletions s' c \<noteq> None"
    if "Delete mut url resourceName nodeIDs wg callback s = Inr (rv, s')" for rv s'
    using Delete_keeps [OF k that] by simp
qed

theorem C4_canceled_dropped_witness:
  "ctxErr (cancel 1 (upserted [''10.0.0.1''])) 1 \<and>
   pendingCompletions (cancel 1 (upserted [''10.0.0.1''])) 1 \<noteq> None \<and>
   pendingCompletions
     (handleAcks [Ack 5 5 ''10.0.0.1'' [''bar/foo''] ''cluster'' []] (cancel 1 (upserted [''10.0.0.1'']))) 1 = None \<and>
   completed
     (handleAcks [Ack 5 5 ''10.0.0.1'' [''bar/foo''] ''cluster'' []] (cancel 1 (upserted [''10.0.0.1'']))) 1 = [] \<and>
   pendingCompletions (DeleteNode ''10.0.0.1'' (cancel 1 (upserted [''10.0.0.1'']))) 1 \<noteq> None"
proof -
  let ?s = "cancel 1 (upserted [''10.0.0.1''])"
  have e: "ctxErr ?s 1"
    by simp
  have k: "pendingCompletions ?s 1 \<noteq> None"
    by (simp add: upserted_fields)
  have c0: "completed ?s 1 = []"
    by (simp add: upserted_fields)
  note a = C4_canceled_dropped
    [of ?s 1 "[]" "Ack 5 5 ''10.0.0.1'' [''bar/foo''] ''cluster'' []", THEN conjunct1, THEN mp, OF e]
  note b = C4_canceled_dropped
    [of ?s 1 "[]" "Ack 5 5 ''10.0.0.1'' [''bar/foo''] ''cluster'' []" "''10.0.0.1''" "''cluster''" "[]" None
        "counterStore True" "''bar/foo''" "()" None,
     THEN conjunct2, THEN mp, OF k]
  from a b e k c0 show ?thesis
    by simp
qed

text \<open>
  C5. MarkRestorePending sets the restoring flag and MarkRestoreCompleted clears it. While
  it is set, Upsert and Delete called with a WaitGroup return without registering
  anything: pendingCompletions is unchanged, no completion is created or completed, and
  the callback, if there is one, is invoked at once with nil. UseCurrent with a WaitGroup
  leaves the state as it is. The flag stays set through these calls.
\<close>

theorem C5_restoring_bypass:
  "restoring (MarkRestorePending s0) \<and> \<not> restoring (MarkRestoreCompleted s0) \<and>
   (restoring s \<longrightarrow>
     (\<exists>rv s'. Upsert mut url resourceName resource nodeIDs (Some w) callback s = Inr (rv, s') \<and>
        pendingCompletions s' = pendingCompletions s \<and> created s' = created s \<and>
        completed s' = completed s \<and> restoring s' \<and>
        called s' = called s @ (case callback of None \<Rightarrow> [] | Some cb \<Rightarrow> [(cb, None)])) \<and>
     (\<exists>rv s'. Delete mut url resourceName nodeIDs (Some w) callback s = Inr (rv, s') \<and>
        pendingCompletions s' = pendingCompletions s \<and> created s' = created s \<and>
        completed s' = completed s \<and> restoring s' \<and>
        called s' = called s @ (case callback of None \<Rightarrow> [] | Some cb \<Rightarrow> [(cb, None)])) \<and>
     UseCurrent url nodeIDs (Some w) s = s)"
proof (intro conjI impI)
  show "restoring (MarkRestorePending s0)"
    by (simp add: MarkRestorePending_def)
  show "\<not> restoring (MarkRestoreCompleted s0)"
    by (simp add: MarkRestoreCompleted_def)
next
  assume r: "restoring s"
  obtain ver updated revert store where
    u: "mutUpsert mut url resourceName resource (mutator s) = ((ver, updated, revert), store)"
    by (metis prod.exhaust)
  show "\<exists>rv s'. Upsert mut url resourceName resource nodeIDs (Some w) callback s = Inr (rv, s') \<and>
        pendingCompletions s' = pendingCompletions s \<and> created s' = created s \<and>
        completed s' = completed s \<and> restoring s' \<and>
        called s' = called s @ (case callback of None \<Rightarrow> [] | Some cb \<Rightarrow> [(cb, None)])"
    using r by (simp add: Upsert_restoring [OF r u] callbackNil_fields)
next
  assume r: "restoring s"
  obtain ver updated revert store where
    d: "mutDelete mut url resourceName (mutator s) = ((ver, updated, revert), store)"
    by (metis prod.exhaust)
  show "\<exists>rv s'. Delete mut url resourceName nodeIDs (Some w) callback s = Inr (rv, s') \<and>
        pendingCompletions s' = pendingCompletions s \<and> created s' = created s \<and>
        completed s' = completed s \<and> restoring s' \<and>
        called s' = called s @ (case callback of None \<Rightarrow> [] | Some cb \<Rightarrow> [(cb, None)])"
    using r by (simp add: Delete_restoring [OF r d] callbackNil_fields)
next
  assume "restoring s"
  then show "UseCurrent url nodeIDs (Some w) s = s"
    by (simp add: UseCurrent_def waitFor_def)
qed

theorem C5_restoring_bypass_witness:
  "restoring (MarkRestorePending wrapper4) \<and>
   (\<exists>rv s'. Upsert (counterStore True) ''cluster'' ''bar/foo'' () [''10.0.0.1''] (Some 1) (Some ''cb'')
               (MarkRestorePending wrapper4) = Inr (rv, s') \<and>
      pendingCompletions s' = Map.empty \<and> called s' = [(''cb'', None)]) \<and>
   (\<exists>rv s'. Delete (counterStore True :: (uint64, unit) ResourceMutator) ''cluster'' ''bar/foo'' [''10.0.0.1''] (Some 1) (Some ''cb'')
               (MarkRestorePending wrapper4) = Inr (rv, s') \<and>
      pendingCompletions s' = Map.empty \<and> called s' = [(''cb'', None)]) \<and>
   UseCurrent ''cluster'' [''10.0.0.1''] (Some 1) (MarkRestorePending wrapper4) = MarkRestorePending wrapper4"
proof -
  have p: "pendingCompletions (MarkRestorePending wrapper4) = Map.empty"
    and c: "called (MarkRestorePending wrapper4) = []"
    and r: "restoring (MarkRestorePending wrapper4)"
    by (simp_all add: MarkRestorePending_def wrapper4_def NewAckingResourceMutatorWrapper_def)
  from C5_restoring_bypass
    [of wrapper4 "MarkRestorePending wrapper4" "counterStore True" "''cluster''" "''bar/foo''" "()"
        "[''10.0.0.1'']" 1 "Some ''cb''"]
  show ?thesis
    by (simp add: p c r) blast
qed

text \<open>
  C6. A completion is a single-use token. When a changed Upsert or a changed Delete waits
  (a WaitGroup is given and the wrapper is not restoring) and the completion the
  WaitGroup returns is already a key of pendingCompletions, the call ends the process
  with \<open>logging.Fatal\<close> and registers nothing.
\<close>

theorem C6_reuse_is_fatal:
  "(\<not> restoring s \<and> pendingCompletions s c \<noteq> None \<and>
      mutUpsert mut url resourceName resource (mutator s) = ((ver, True, revert), store)
     \<longrightarrow> Upsert mut url resourceName resource nodeIDs (Some c) callback s = Inl Fatal) \<and>
   (\<not> restoring s \<and> pendingCompletions s c \<noteq> None \<and>
      mutDelete mut url resourceName (mutator s) = ((ver, True, revert), store)
     \<longrightarrow> Delete mut url resourceName nodeIDs (Some c) callback s = Inl Fatal)"
  by (simp add: Upsert_def Delete_def waitFor_def Let_def AddCompletionWithCallback_def)

theorem C6_reuse_is_fatal_witness:
  "(\<exists>rv s1. Upsert (counterStore True) ''cluster'' ''bar/foo'' () [''10.0.0.1''] (Some 1) (Some ''cb'') wrapper4
       = Inr (rv, s1) \<and>
      pendingCompletions s1 1 \<noteq> None \<and>
      Upsert (counterStore True) ''cluster'' ''baz'' () [''10.0.0.1''] (Some 1) (Some ''cb'') s1 = Inl Fatal \<and>
      Delete (counterStore True :: (uint64, unit) ResourceMutator) ''cluster'' ''bar/foo'' [''10.0.0.1''] (Some 1) (Some ''cb'') s1 = Inl Fatal)"
proof -
  obtain rv s1 where
    u: "Upsert (counterStore True) ''cluster'' ''bar/foo'' () [''10.0.0.1''] (Some 1) (Some ''cb'') wrapper4
          = Inr (rv, s1 :: (uint64, string) state)"
    and p: "pendingCompletions s1 1 \<noteq> None" and r: "\<not> restoring s1" and m: "mutator s1 = 5"
    by (simp add: Upsert_def waitFor_def Let_def AddCompletionWithCallback_def counterStore_def
          wrapper4_def NewAckingResourceMutatorWrapper_def)
  have h1: "mutUpsert (counterStore True) ''cluster'' ''baz'' () (mutator s1)
              = ((6, True, Some (\<lambda>w. (w + 1, w + 1))), 6)"
    by (simp add: counterStore_def m)
  have h2: "mutDelete (counterStore True :: (uint64, unit) ResourceMutator) ''cluster'' ''bar/foo'' (mutator s1)
              = ((6, True, Some (\<lambda>w. (w + 1, w + 1))), 6)"
    by (simp add: counterStore_def m)
  from C6_reuse_is_fatal
    [of s1 1 "counterStore True" "''cluster''" "''baz''" "()" 6 "Some (\<lambda>w. (w + 1, w + 1))" 6
        "[''10.0.0.1'']" "Some ''cb''"] p r h1
  have a: "Upsert (counterStore True) ''cluster'' ''baz'' () [''10.0.0.1''] (Some 1) (Some ''cb'') s1 = Inl Fatal"
    by blast
  from C6_reuse_is_fatal
    [of s1 1 "counterStore True :: (uint64, unit) ResourceMutator" "''cluster''" "''bar/foo''" "()" 6 "Some (\<lambda>w. (w + 1, w + 1))" 6
        "[''10.0.0.1'']" "Some ''cb''"] p r h2
  have b: "Delete (counterStore True :: (uint64, unit) ResourceMutator) ''cluster'' ''bar/foo'' [''10.0.0.1''] (Some 1) (Some ''cb'') s1 = Inl Fatal"
    by blast
  show ?thesis using u p a b by blast
qed



text \<open>
  C8. The revert function returned by a changed Upsert, called with a completion, calls
  the store's revert function, records the version it returns, and registers for the
  completion a PendingCompletion for that version and the typeURL of the Upsert whose
  entry for each of the Upsert's target nodes is the nil set: any ack of the version
  resolves a node, the reverted resource name is not waited for.
\<close>

theorem C8_upsert_revert_any_ack:
  assumes "mutUpsert mut url resourceName resource (mutator s) = ((ver, True, Some r), store)"
    and "Upsert mut url resourceName resource nodeIDs wg callback s = Inr (rv, s1)"
    and "r (mutator t) = (ver', store')"
  shows "mutator (rv (Some c) t) = store' \<and>
         version (rv (Some c) t) = ver' \<and>
         pendingCompletions (rv (Some c) t) =
           (pendingCompletions t)(c \<mapsto>
              \<lparr>pendingCompletion.version = ver', typeURL = url,
               remainingNodesResources = (\<lambda>n. if n \<in> set nodeIDs then Some NilSet else None)\<rparr>)"
proof -
  from assms(1,2) have rv: "rv = revertFunc url nodeIDs (Some r)"
    by (auto simp: Upsert_def Let_def split: option.splits if_splits)
  show ?thesis
    by (simp add: rv revertFunc_def assms(3) addVersionCompletion_def fold_upd_const_empty)
qed

theorem C8_upsert_revert_any_ack_witness:
  "\<exists>rv s1. Upsert (counterStore True) ''cluster'' ''bar/foo'' () [''10.0.0.1''] (Some 1) (Some ''cb'') wrapper4
       = Inr (rv, s1) \<and>
     pendingCompletions s1 1 = Some \<lparr>pendingCompletion.version = 5, typeURL = ''cluster'',
        remainingNodesResources = [''10.0.0.1'' \<mapsto> NameSet {''bar/foo''}]\<rparr> \<and>
     mutator (rv (Some 2) s1) = 6 \<and> version (rv (Some 2) s1) = 6 \<and>
     pendingCompletions (rv (Some 2) s1) 2 = Some \<lparr>pendingCompletion.version = 6, typeURL = ''cluster'',
        remainingNodesResources = (\<lambda>n. if n \<in> set [''10.0.0.1''] then Some NilSet else None)\<rparr>"
proof -
  obtain rv s1 where
    u: "Upsert (counterStore True) ''cluster'' ''bar/foo'' () [''10.0.0.1''] (Some 1) (Some ''cb'') wrapper4
          = Inr (rv, s1 :: (uint64, string) state)"
    and p: "pendingCompletions s1 1 = Some \<lparr>pendingCompletion.version = 5, typeURL = ''cluster'',
        remainingNodesResources = [''10.0.0.1'' \<mapsto> NameSet {''bar/foo''}]\<rparr>"
    and m: "mutator s1 = 5"
    by (simp add: Upsert_def waitFor_def Let_def AddCompletionWithCallback_def counterStore_def
          wrapper4_def NewAckingResourceMutatorWrapper_def)
  have h1: "mutUpsert (counterStore True) ''cluster'' ''bar/foo'' () (mutator wrapper4)
              = ((5, True, Some (\<lambda>w. (w + 1, w + 1))), 5)"
    by (simp add: counterStore_def wrapper4_def NewAckingResourceMutatorWrapper_def)
  have h3: "(\<lambda>w::uint64. (w + 1, w + 1)) (mutator s1) = (6, 6)"
    by (simp add: m)
  from C8_upsert_revert_any_ack [OF h1 u h3, of 2] u p
  show ?thesis by simp
qed

text \<open>
  C9. A changed Upsert or Delete that waits with an empty list of node IDs registers a
  PendingCompletion whose remaining-nodes map is empty. No sequence of
  HandleResourceVersionAck calls completes it or removes it: the acking node is never a
  key of the map, so the branch that resolves is not reached. Once its context is
  canceled, the next call drops it, still without completing it.
\<close>

theorem C9_empty_nodeIDs_never_completes:
  assumes "\<not> restoring s" and "pendingCompletions s c = None" and "\<not> ctxErr s c"
  shows
   "(mutUpsert mut url resourceName resource (mutator s) = ((ver, True, revert), store) \<longrightarrow>
      (\<exists>rv s1. Upsert mut url resourceName resource [] (Some c) callback s = Inr (rv, s1) \<and>
         pendingCompletions s1 c =
           Some \<lparr>pendingCompletion.version = ver, typeURL = url, remainingNodesResources = Map.empty\<rparr> \<and>
         pendingCompletions (handleAcks msgs s1) c = pendingCompletions s1 c \<and>
         completed (handleAcks msgs s1) c = completed s c \<and>
         pendingCompletions (handleAcks (m # msgs') (cancel c (handleAcks msgs s1))) c = None \<and>
         completed (handleAcks (m # msgs') (cancel c (handleAcks msgs s1))) c = completed s c)) \<and>
    (mutDelete mut url resourceName (mutator s) = ((ver, True, revert), store) \<longrightarrow>
      (\<exists>rv s1. Delete mut url resourceName [] (Some c) callback s = Inr (rv, s1) \<and>
         pendingCompletions s1 c =
           Some \<lparr>pendingCompletion.version = ver, typeURL = url, remainingNodesResources = Map.empty\<rparr> \<and>
         pendingCompletions (handleAcks msgs s1) c = pendingCompletions s1 c \<and>
         completed (handleAcks msgs s1) c = completed s c \<and>
         pendingCompletions (handleAcks (m # msgs') (cancel c (handleAcks msgs s1))) c = None \<and>
         completed (handleAcks (m # msgs') (cancel c (handleAcks msgs s1))) c = completed s c))"
proof (intro conjI impI)
  let ?p = "\<lparr>pendingCompletion.version = ver, typeURL = url, remainingNodesResources = Map.empty\<rparr>"
  assume u: "mutUpsert mut url resourceName resource (mutator s) = ((ver, True, revert), store)"
  define s1 where "s1 = (s\<lparr>mutator := store, version := ver, created := (created s)(c \<mapsto> callback),
                           pendingCompletions := (pendingCompletions s)(c \<mapsto> ?p)\<rparr>)"
  have r: "Upsert mut url resourceName resource [] (Some c) callback s = Inr (revertFunc url [] revert, s1)"
    using assms(1,2) u by (simp add: Upsert_def waitFor_def Let_def AddCompletionWithCallback_def s1_def)
  have p: "pendingCompletions s1 c = Some ?p" and e: "\<not> ctxErr s1 c" and c: "completed s1 = completed s"
    using assms(3) by (simp_all add: s1_def)
  have n: "remainingNodesResources ?p = Map.empty"
    by simp
  from no_nodes_forever [OF p n e, of msgs m msgs'] r p c
  show "\<exists>rv s1. Upsert mut url resourceName resource [] (Some c) callback s = Inr (rv, s1) \<and>
         pendingCompletions s1 c = Some ?p \<and>
         pendingCompletions (handleAcks msgs s1) c = pendingCompletions s1 c \<and>
         completed (handleAcks msgs s1) c = completed s c \<and>
         pendingCompletions (handleAcks (m # msgs') (cancel c (handleAcks msgs s1))) c = None \<and>
         completed (handleAcks (m # msgs') (cancel c (handleAcks msgs s1))) c = completed s c"
    by simp
next
  let ?p = "\<lparr>pendingCompletion.version = ver, typeURL = url, remainingNodesResources = Map.empty\<rparr>"
  assume u: "mutDelete mut url resourceName (mutator s) = ((ver, True, revert), store)"
  define s1 where "s1 = (s\<lparr>mutator := store, version := ver, created := (created s)(c \<mapsto> callback),
                           pendingCompletions := (pendingCompletions s)(c \<mapsto> ?p)\<rparr>)"
  have r: "Delete mut url resourceName [] (Some c) callback s = Inr (revertFunc url [] revert, s1)"
    using assms(1,2) u
    by (simp add: Delete_def waitFor_def Let_def AddCompletionWithCallback_def addVersionCompletion_def s1_def)
  have p: "pendingCompletions s1 c = Some ?p" and e: "\<not> ctxErr s1 c" and c: "completed s1 = completed s"
    using assms(3) by (simp_all add: s1_def)
  have n: "remainingNodesResources ?p = Map.empty"
    by simp
  from no_nodes_forever [OF p n e, of msgs m msgs'] r p c
  show "\<exists>rv s1. Delete mut url resourceName [] (Some c) callback s = Inr (rv, s1) \<and>
         pendingCompletions s1 c = Some ?p \<and>
         pendingCompletions (handleAcks msgs s1) c = pendingCompletions s1 c \<and>
         completed (handleAcks msgs s1) c = completed s c \<and>
         pendingCompletions (handleAcks (m # msgs') (cancel c (handleAcks msgs s1))) c = None \<and>
         completed (handleAcks (m # msgs') (cancel c (handleAcks msgs s1))) c = completed s c"
    by simp
qed

theorem C9_empty_nodeIDs_never_completes_witness:
  "pendingCompletions (upserted []) 1 =
     Some \<lparr>pendingCompletion.version = 5, typeURL = ''cluster'', remainingNodesResources = Map.empty\<rparr> \<and>
   pendingCompletions
     (handleAcks [Ack 5 5 ''10.0.0.1'' [''bar/foo''] ''cluster'' [], Ack 9 9 ''10.0.0.2'' [] ''cluster'' []]
        (upserted [])) 1 = pendingCompletions (upserted []) 1 \<and>
   completed
     (handleAcks [Ack 5 5 ''10.0.0.1'' [''bar/foo''] ''cluster'' [], Ack 9 9 ''10.0.0.2'' [] ''cluster'' []]
        (upserted [])) 1 = [] \<and>
   pendingCompletions
     (handleAcks [Ack 5 5 ''10.0.0.1'' [''bar/foo''] ''cluster'' []]
        (cancel 1 (handleAcks [Ack 5 5 ''10.0.0.1'' [''bar/foo''] ''cluster'' [], Ack 9 9 ''10.0.0.2'' [] ''cluster'' []]
           (upserted [])))) 1 = None \<and>
   completed
     (handleAcks [Ack 5 5 ''10.0.0.1'' [''bar/foo''] ''cluster'' []]
        (cancel 1 (handleAcks [Ack 5 5 ''10.0.0.1'' [''bar/foo''] ''cluster'' [], Ack 9 9 ''10.0.0.2'' [] ''cluster'' []]
           (upserted [])))) 1 = [] \<and>
   pendingCompletions (deleted []) 1 =
     Some \<lparr>pendingCompletion.version = 5, typeURL = ''cluster'', remainingNodesResources = Map.empty\<rparr> \<and>
   pendingCompletions (handleAcks 
        [Ack 5 5 ''10.0.0.1'' [''bar/foo''] ''cluster'' [], Ack 9 9 ''10.0.0.2'' [] ''cluster'' []]
        (deleted [])) 1 = pendingCompletions (deleted []) 1 \<and>
   completed (handleAcks 
        [Ack 5 5 ''10.0.0.1'' [''bar/foo''] ''cluster'' [], Ack 9 9 ''10.0.0.2'' [] ''cluster'' []]
        (deleted [])) 1 = [] \<and>
   pendingCompletions
     (handleAcks [Ack 5 5 ''10.0.0.1'' [''bar/foo''] ''cluster'' []] (cancel 1 (handleAcks 
        [Ack 5 5 ''10.0.0.1'' [''bar/foo''] ''cluster'' [], Ack 9 9 ''10.0.0.2'' [] ''cluster'' []]
        (deleted [])))) 1 = None \<and>
   completed
     (handleAcks [Ack 5 5 ''10.0.0.1'' [''bar/foo''] ''cluster'' []] (cancel 1 (handleAcks 
        [Ack 5 5 ''10.0.0.1'' [''bar/foo''] ''cluster'' [], Ack 9 9 ''10.0.0.2'' [] ''cluster'' []]
        (deleted [])))) 1 = []"
proof -
  have h: "\<not> restoring wrapper4" "pendingCompletions wrapper4 1 = None" "\<not> ctxErr wrapper4 1"
    by (simp_all add: wrapper4_fields)
  have u: "mutUpsert (counterStore True) ''cluster'' ''bar/foo'' () (mutator wrapper4)
             = ((5, True, Some (\<lambda>w. (w + 1, w + 1))), 5)"
    by (simp add: counterStore_Upsert wrapper4_fields)
  from C9_empty_nodeIDs_never_completes [OF h,
      of "counterStore True" "''cluster''" "''bar/foo''" "()" 5 "Some (\<lambda>w. (w + 1, w + 1))" 5 "Some ''cb''"
         "[Ack 5 5 ''10.0.0.1'' [''bar/foo''] ''cluster'' [], Ack 9 9 ''10.0.0.2'' [] ''cluster'' []]"
         "Ack 5 5 ''10.0.0.1'' [''bar/foo''] ''cluster'' []" "[]",
      THEN conjunct1, THEN mp, OF u]
  obtain rv s1 where
    r: "Upsert (counterStore True) ''cluster'' ''bar/foo'' () [] (Some 1) (Some ''cb'') wrapper4 = Inr (rv, s1)"
    and f: "pendingCompletions s1 1 =
        Some \<lparr>pendingCompletion.version = 5, typeURL = ''cluster'', remainingNodesResources = Map.empty\<rparr> \<and>
      pendingCompletions
        (handleAcks [Ack 5 5 ''10.0.0.1'' [''bar/foo''] ''cluster'' [], Ack 9 9 ''10.0.0.2'' [] ''cluster'' []] s1) 1
        = pendingCompletions s1 1 \<and>
      completed
        (handleAcks [Ack 5 5 ''10.0.0.1'' [''bar/foo''] ''cluster'' [], Ack 9 9 ''10.0.0.2'' [] ''cluster'' []] s1) 1
        = completed wrapper4 1 \<and>
      pendingCompletions
        (handleAcks [Ack 5 5 ''10.0.0.1'' [''bar/foo''] ''cluster'' []]
           (cancel 1 (handleAcks [Ack 5 5 ''10.0.0.1'' [''bar/foo''] ''cluster'' [], Ack 9 9 ''10.0.0.2'' [] ''cluster'' []] s1))) 1
        = None \<and>
      completed
        (handleAcks [Ack 5 5 ''10.0.0.1'' [''bar/foo''] ''cluster'' []]
           (cancel 1 (handleAcks [Ack 5 5 ''10.0.0.1'' [''bar/foo''] ''cluster'' [], Ack 9 9 ''10.0.0.2'' [] ''cluster'' []] s1))) 1
        = completed wrapper4 1"
    by blast
  from r have s1: "s1 = upserted []"
    unfolding Upsert_wrapper4 by simp
  have d: "mutDelete (counterStore True :: (uint64, unit) ResourceMutator) ''cluster'' ''bar/foo'' (mutator wrapper4)
             = ((5, True, Some (\<lambda>w. (w + 1, w + 1))), 5)"
    by (simp add: counterStore_Delete wrapper4_fields)
  from C9_empty_nodeIDs_never_completes [OF h,
      of "counterStore True :: (uint64, unit) ResourceMutator" "''cluster''" "''bar/foo''" "()" 5
         "Some (\<lambda>w. (w + 1, w + 1))" 5 "Some ''cb''"
         "[Ack 5 5 ''10.0.0.1'' [''bar/foo''] ''cluster'' [], Ack 9 9 ''10.0.0.2'' [] ''cluster'' []]"
         "Ack 5 5 ''10.0.0.1'' [''bar/foo''] ''cluster'' []" "[]",
      THEN conjunct2, THEN mp, OF d]
  obtain rv' s2 where
    r': "Delete (counterStore True :: (uint64, unit) ResourceMutator) ''cluster'' ''bar/foo'' [] (Some 1) (Some ''cb'') wrapper4
           = Inr (rv', s2)"
    and g: "pendingCompletions s2 1 =
        Some \<lparr>pendingCompletion.version = 5, typeURL = ''cluster'', remainingNodesResources = Map.empty\<rparr> \<and>
      pendingCompletions
        (handleAcks [Ack 5 5 ''10.0.0.1'' [''bar/foo''] ''cluster'' [], Ack 9 9 ''10.0.0.2'' [] ''cluster'' []] s2) 1
        = pendingCompletions s2 1 \<and>
      completed
        (handleAcks [Ack 5 5 ''10.0.0.1'' [''bar/foo''] ''cluster'' [], Ack 9 9 ''10.0.0.2'' [] ''cluster'' []] s2) 1
        = completed wrapper4 1 \<and>
      pendingCompletions
        (handleAcks [Ack 5 5 ''10.0.0.1'' [''bar/foo''] ''cluster'' []]
           (cancel 1 (handleAcks [Ack 5 5 ''10.0.0.1'' [''bar/foo''] ''cluster'' [], Ack 9 9 ''10.0.0.2'' [] ''cluster'' []] s2))) 1
        = None \<and>
      completed
        (handleAcks [Ack 5 5 ''10.0.0.1'' [''bar/foo''] ''cluster'' []]
           (cancel 1 (handleAcks [Ack 5 5 ''10.0.0.1'' [''bar/foo''] ''cluster'' [], Ack 9 9 ''10.0.0.2'' [] ''cluster'' []] s2))) 1
        = completed wrapper4 1"
    by blast
  from r' have s2: "s2 = deleted []"
    unfolding Delete_wrapper4 by simp
  from f g show ?thesis
    unfolding s1 s2 by (simp only: wrapper4_fields simp_thms)
qed

text \<open>
  C10. When the wrapped mutator reports no change, Upsert and Delete return (they never
  end the process) and the revert function they return does nothing: called with any
  completion, nil or not, in any state, it leaves the whole state as it is, so the
  version, the store, pendingCompletions and the Complete calls are untouched.
\<close>

theorem C10_unchanged_revert_noop:
  "(mutUpsert mut url resourceName resource (mutator s) = ((ver, False, revert), store) \<longrightarrow>
      (\<exists>rv s'. Upsert mut url resourceName resource nodeIDs wg callback s = Inr (rv, s') \<and>
                (\<forall>completion t. rv completion t = t))) \<and>
   (mutDelete mut url resourceName (mutator s) = ((ver, False, revert), store) \<longrightarrow>
      (\<exists>rv s'. Delete mut url resourceName nodeIDs wg callback s = Inr (rv, s') \<and>
                (\<forall>completion t. rv completion t = t)))"
  by (simp add: Upsert_def Delete_def Let_def emptyRevertFunc_def)

theorem C10_unchanged_revert_noop_witness:
  "(\<exists>rv s'. Upsert (counterStore False) ''cluster'' ''bar/foo'' () [''10.0.0.1''] (Some 1) (Some ''cb'') wrapper4
       = Inr (rv, s') \<and> (\<forall>completion t. rv completion t = t)) \<and>
   (\<exists>rv s'. Delete (counterStore False :: (uint64, unit) ResourceMutator) ''cluster'' ''bar/foo'' [''10.0.0.1''] (Some 1) (Some ''cb'') wrapper4
       = Inr (rv, s') \<and> (\<forall>completion t. rv completion t = t))"
proof -
  have h1: "mutUpsert (counterStore False) ''cluster'' ''bar/foo'' () (mutator wrapper4) = ((4, False, None), 4)"
    by (simp add: counterStore_def wrapper4_def NewAckingResourceMutatorWrapper_def)
  have h2: "mutDelete (counterStore False :: (uint64, unit) ResourceMutator) ''cluster'' ''bar/foo'' (mutator wrapper4) = ((4, False, None), 4)"
    by (simp add: counterStore_def wrapper4_def NewAckingResourceMutatorWrapper_def)
  from C10_unchanged_revert_noop
     [of "counterStore False" "''cluster''" "''bar/foo''" "()" wrapper4 4 None 4 "[''10.0.0.1'']" "Some 1" "Some ''cb''"]
     h1 h2
  show ?thesis by blast
qed

end
